theory Spec2Isabelle
  imports Main
begin

section \<open>JavaScript values used by the dispatch layer\<close>

text \<open>
  The numbers that occur in the modelled code are integers: millisecond timestamps read
  from \<^verbatim>\<open>Date.now()\<close>, cooldowns in seconds, array indices and attempt counters.
  They are modelled as \<^typ>\<open>int\<close> (indices that are always in range as \<^typ>\<open>nat\<close>).
  Numeric environment variables are taken after \<^verbatim>\<open>parseInt\<close> and are assumed to
  denote an integer whenever they are set.  Strings are lists of 8-bit characters.
\<close>

definition truthyNum :: "int option \<Rightarrow> bool" where
  \<comment> \<open>truthiness of a field that holds \<^verbatim>\<open>null\<close> or a number: \<^verbatim>\<open>null\<close> and \<^verbatim>\<open>0\<close> are falsy\<close>
  "truthyNum v = (case v of None \<Rightarrow> False | Some n \<Rightarrow> n \<noteq> 0)"

definition truthyStr :: "string option \<Rightarrow> bool" where
  \<comment> \<open>truthiness of a value that is \<^verbatim>\<open>undefined\<close> or a string: the empty string is falsy\<close>
  "truthyStr v = (case v of None \<Rightarrow> False | Some s \<Rightarrow> s \<noteq> [])"

definition showBool :: "bool \<Rightarrow> string" where
  \<comment> \<open>a boolean inside a template literal\<close>
  "showBool b = (if b then ''true'' else ''false'')"

subsection \<open>Case-insensitive regular expression tests\<close>

definition toLowerAscii :: "char \<Rightarrow> char" where
  "toLowerAscii c =
     (let n = (of_char c :: nat) in if 65 \<le> n \<and> n \<le> 90 then char_of (n + 32) else c)"

fun startsWith :: "string \<Rightarrow> string \<Rightarrow> bool" where
  \<comment> \<open>\<open>startsWith pat s\<close>: the lower-case literal \<open>pat\<close> matches at the start of \<open>s\<close>, ignoring case\<close>
  "startsWith [] s = True"
| "startsWith (p # ps) [] = False"
| "startsWith (p # ps) (c # cs) = (p = toLowerAscii c \<and> startsWith ps cs)"

fun includesCI :: "string \<Rightarrow> string \<Rightarrow> bool" where
  \<comment> \<open>\<^verbatim>\<open>/pat/i.test(s)\<close> for a literal pattern\<close>
  "includesCI pat [] = startsWith pat []"
| "includesCI pat (c # cs) = (startsWith pat (c # cs) \<or> includesCI pat cs)"

definition lineTerminator :: "char \<Rightarrow> bool" where
  \<comment> \<open>the characters that \<^verbatim>\<open>.\<close> does not match (among 8-bit characters)\<close>
  "lineTerminator c = (c = CHR 0x0A \<or> c = CHR 0x0D)"

fun dotStarThen :: "string \<Rightarrow> string \<Rightarrow> bool" where
  \<comment> \<open>\<^verbatim>\<open>.*pat\<close> matched at the start of the string\<close>
  "dotStarThen pat [] = startsWith pat []"
| "dotStarThen pat (c # cs) =
     (startsWith pat (c # cs) \<or> (\<not> lineTerminator c \<and> dotStarThen pat cs))"

fun includesThenCI :: "string \<Rightarrow> string \<Rightarrow> string \<Rightarrow> bool" where
  \<comment> \<open>\<^verbatim>\<open>/p.*q/i.test(s)\<close> for literal \<open>p\<close> and \<open>q\<close>\<close>
  "includesThenCI p q [] = (startsWith p [] \<and> dotStarThen q (drop (length p) []))"
| "includesThenCI p q (c # cs) =
     ((startsWith p (c # cs) \<and> dotStarThen q (drop (length p) (c # cs)))
      \<or> includesThenCI p q cs)"

subsection \<open>Thrown errors\<close>

record js_error =
  status :: "int option"
  statusCode :: "int option"
  message :: "string option"

definition messageOf :: "js_error \<Rightarrow> string" where
  \<comment> \<open>\<^verbatim>\<open>error?.message || ''\<close>\<close>
  "messageOf e = (case message e of None \<Rightarrow> [] | Some m \<Rightarrow> m)"

datatype nullish = Null | Undefined

datatype outcome =
    Returned "string option"  \<comment> \<open>the awaited call returned; \<open>None\<close> is a missing content\<close>
  | Thrown js_error           \<comment> \<open>the awaited call (or reading its result) threw a value other than
                                  \<^verbatim>\<open>null\<close> and \<^verbatim>\<open>undefined\<close>; a field it lacks is \<open>None\<close>\<close>
  | ThrownNullish nullish     \<comment> \<open>it threw \<^verbatim>\<open>null\<close> or \<^verbatim>\<open>undefined\<close>\<close>

definition readOfNullish :: "nullish \<Rightarrow> js_error" where
  \<comment> \<open>the TypeError of \<^verbatim>\<open>error.message\<close> in a \<^verbatim>\<open>catch\<close> block whose \<^verbatim>\<open>error\<close> is nullish\<close>
  "readOfNullish v =
     \<lparr>status = None, statusCode = None,
      message = Some (''Cannot read properties of ''
                      @ (case v of Null \<Rightarrow> ''null'' | Undefined \<Rightarrow> ''undefined'')
                      @ '' (reading 'message')'')\<rparr>"

section \<open>The key pool (groq-client.js)\<close>

record key_status =
  limited :: bool
  resetTime :: "int option"

text \<open>
  \<^verbatim>\<open>clients\<close> and \<^verbatim>\<open>keyStatus\<close> are both built by mapping over \<^verbatim>\<open>uniqueKeys\<close> and are
  never resized, so \<^verbatim>\<open>clients.length\<close> is the length of \<open>keyStatus\<close>; a client is
  identified by its index.  The pool functions are synchronous: each takes the clock
  reading of its call as the argument \<open>now\<close>.
\<close>

record pool =
  keyStatus :: "key_status list"
  currentIndex :: nat

definition freshStatus :: key_status where
  "freshStatus = \<lparr>limited = False, resetTime = None\<rparr>"

definition initPool :: "string list \<Rightarrow> pool" where
  \<comment> \<open>\<^verbatim>\<open>keyStatus = uniqueKeys.map(() => ({limited: false, resetTime: null})); currentIndex = 0\<close>\<close>
  "initPool uniqueKeys = \<lparr>keyStatus = map (\<lambda>_. freshStatus) uniqueKeys, currentIndex = 0\<rparr>"

definition resetIfExpired :: "nat \<Rightarrow> int \<Rightarrow> key_status list \<Rightarrow> key_status list" where
  \<comment> \<open>\<^verbatim>\<open>_resetIfExpired(index)\<close>, called with \<open>index < length ks\<close> only; \<open>now\<close> is \<^verbatim>\<open>Date.now()\<close>\<close>
  "resetIfExpired index now ks =
     (let st = ks ! index in
      if limited st \<and> truthyNum (resetTime st) \<and> (case resetTime st of None \<Rightarrow> False | Some r \<Rightarrow> now > r)
      then ks[index := st\<lparr>limited := False, resetTime := None\<rparr>]
      else ks)"

definition resetStatus :: "int \<Rightarrow> key_status \<Rightarrow> key_status" where
  \<comment> \<open>what \<^verbatim>\<open>_resetIfExpired\<close> does to one status object\<close>
  "resetStatus now st =
     (if limited st \<and> truthyNum (resetTime st) \<and> (case resetTime st of None \<Rightarrow> False | Some r \<Rightarrow> now > r)
      then st\<lparr>limited := False, resetTime := None\<rparr> else st)"

definition statusInv :: "key_status \<Rightarrow> bool" where
  \<comment> \<open>the two health fields agree\<close>
  "statusInv s = (limited s = False \<longleftrightarrow> resetTime s = None)"

definition resetAllExpired :: "int \<Rightarrow> key_status list \<Rightarrow> key_status list" where
  \<comment> \<open>the first loop of \<^verbatim>\<open>getAvailableClient\<close>\<close>
  "resetAllExpired now ks = fold (\<lambda>i. resetIfExpired i now) [0..<length ks] ks"

definition getAvailableClient :: "int \<Rightarrow> pool \<Rightarrow> nat option \<times> pool" where
  \<comment> \<open>returns the key index of the client handed out (\<open>None\<close> for \<^verbatim>\<open>null\<close>) and the pool afterwards\<close>
  "getAvailableClient now p =
     (if length (keyStatus p) = 0 then (None, p)
      else
        let ks = resetAllExpired now (keyStatus p);
            n = length ks
        in case find (\<lambda>i. \<not> limited (ks ! ((currentIndex p + i) mod n))) [0..<n] of
             Some i \<Rightarrow> (let idx = (currentIndex p + i) mod n
                        in (Some idx, \<lparr>keyStatus = ks, currentIndex = idx\<rparr>))
           | None \<Rightarrow> (None, \<lparr>keyStatus = ks, currentIndex = currentIndex p\<rparr>))"

definition validDate :: "int \<Rightarrow> bool" where
  \<comment> \<open>\<^verbatim>\<open>new Date(t).toISOString()\<close> raises a RangeError outside this range\<close>
  "validDate t = (- 8640000000000000 \<le> t \<and> t \<le> 8640000000000000)"

definition markKeyLimited :: "int \<Rightarrow> int \<Rightarrow> int \<Rightarrow> key_status list \<Rightarrow> bool \<times> key_status list" where
  \<comment> \<open>\<^verbatim>\<open>markKeyLimited(index, seconds)\<close> at time \<open>now\<close>; the first component tells whether the
      log line after the update raised\<close>
  "markKeyLimited index seconds now ks =
     (if index < 0 \<or> index \<ge> int (length ks) then (False, ks)
      else
        let i = nat index;
            r = now + seconds * 1000
        in (\<not> validDate r, ks[i := (ks ! i)\<lparr>limited := True, resetTime := Some r\<rparr>]))"

definition getKeysInfo :: "pool \<Rightarrow> (nat \<times> bool \<times> int option) list" where
  "getKeysInfo p = map (\<lambda>i. (i, limited (keyStatus p ! i), resetTime (keyStatus p ! i))) [0..<length (keyStatus p)]"

section \<open>Configuration read from the environment\<close>

record env =
  GROQ_API_KEYS :: "string option"
  GROQ_API_KEY :: "string option"
  GROQ_API_KEY_1 :: "string option"
  GROQ_API_KEY_2 :: "string option"
  GROQ_MAX_ATTEMPTS :: "int option"          \<comment> \<open>after \<^verbatim>\<open>parseInt\<close>; \<open>None\<close> when unset or empty\<close>
  GROQ_KEY_COOLDOWN_SECONDS :: "int option"  \<comment> \<open>after \<^verbatim>\<open>parseInt\<close>; \<open>None\<close> when unset or empty\<close>
  GEMINI_API_KEY :: "string option"
  COHERE_API_KEY :: "string option"

fun splitComma :: "string \<Rightarrow> string list" where
  \<comment> \<open>\<^verbatim>\<open>s.split(',')\<close>\<close>
  "splitComma [] = [[]]"
| "splitComma (c # cs) =
     (if c = CHR '','' then [] # splitComma cs
      else (case splitComma cs of [] \<Rightarrow> [[c]] | w # ws \<Rightarrow> (c # w) # ws))"

definition whiteSpace :: "char \<Rightarrow> bool" where
  "whiteSpace c = (let n = (of_char c :: nat) in (9 \<le> n \<and> n \<le> 13) \<or> n = 32 \<or> n = 160)"

definition trim :: "string \<Rightarrow> string" where
  "trim s = rev (dropWhile whiteSpace (rev (dropWhile whiteSpace s)))"

definition dedupe :: "string list \<Rightarrow> string list" where
  \<comment> \<open>\<^verbatim>\<open>[...new Set(keys)]\<close>: the first occurrence of each key, in order\<close>
  "dedupe ks = fold (\<lambda>k acc. if k \<in> set acc then acc else acc @ [k]) ks []"

definition envKey :: "string option \<Rightarrow> string list" where
  \<comment> \<open>\<^verbatim>\<open>if (process.env.X) keys.push(process.env.X)\<close>\<close>
  "envKey v = (case v of None \<Rightarrow> [] | Some k \<Rightarrow> if k \<noteq> [] then [k] else [])"

definition uniqueKeys :: "env \<Rightarrow> string list" where
  "uniqueKeys e =
     dedupe
       ((case GROQ_API_KEYS e of
           None \<Rightarrow> []
         | Some s \<Rightarrow> if s \<noteq> [] then filter (\<lambda>k. k \<noteq> []) (map trim (splitComma s)) else [])
        @ envKey (GROQ_API_KEY e) @ envKey (GROQ_API_KEY_1 e) @ envKey (GROQ_API_KEY_2 e))"

section \<open>The key-rotating dispatcher (groq-ai.js)\<close>

record chat_message =
  role :: string
  content :: string

datatype history_arg =
    Messages "chat_message list"  \<comment> \<open>an array of messages (the default \<^verbatim>\<open>[]\<close> when the argument is \<^verbatim>\<open>undefined\<close>)\<close>
  | NotIterable                   \<comment> \<open>a value that cannot be spread, such as \<^verbatim>\<open>null\<close>\<close>

definition notIterableError :: js_error where
  \<comment> \<open>the TypeError of \<^verbatim>\<open>...conversationHistory\<close> for such a value\<close>
  "notIterableError =
     \<lparr>status = None, statusCode = None, message = Some ''conversationHistory is not iterable''\<rparr>"

definition SKSU_CONTEXT :: string where
  "SKSU_CONTEXT =
     ''You are an AI assistant for Sultan Kudarat State University (SKSU) Student Body Organization.\<newline>''
   @ ''\<newline>''
   @ ''SKSU Information:\<newline>''
   @ ''- Vision: \"A premier state university in Southeast Asia\"\<newline>''
   @ ''- Mission: Providing quality education, research, and community service\<newline>''
   @ ''- Location: Tacurong City, Sultan Kudarat, Philippines\<newline>''
   @ ''- Founded: 1983\<newline>''
   @ ''\<newline>''
   @ ''You help students with:\<newline>''
   @ ''- Academic policies and procedures\<newline>''
   @ ''- Student services and welfare\<newline>''
   @ ''- University rules and regulations\<newline>''
   @ ''- Campus life and activities\<newline>''
   @ ''- General inquiries about SKSU\<newline>''
   @ ''\<newline>''
   @ ''Guidelines:\<newline>''
   @ ''- Be helpful, friendly, and professional\<newline>''
   @ ''- Provide accurate information about SKSU\<newline>''
   @ ''- If you don't know something, admit it and suggest contacting the appropriate office\<newline>''
   @ ''- Keep responses concise and clear\<newline>''
   @ ''- Use a conversational but respectful tone''"

text \<open>
  The world outside the dispatcher: what the awaited \<^verbatim>\<open>client.chat.completions.create\<close>
  of attempt \<open>k\<close> does for the client of a key index and a message list, and the clock
  readings taken in attempt \<open>k\<close> by \<^verbatim>\<open>getAvailableClient\<close> and by \<^verbatim>\<open>markKeyLimited\<close>.
  A malformed completion object, whose reading throws a TypeError inside the inner
  \<^verbatim>\<open>try\<close>, is a \<open>Thrown\<close> outcome.  The inner \<^verbatim>\<open>catch\<close> reads \<^verbatim>\<open>error.message\<close>
  before anything else, which itself throws when the value caught is nullish.
\<close>

record world =
  respond :: "nat \<Rightarrow> nat \<Rightarrow> chat_message list \<Rightarrow> outcome"
  selectTime :: "nat \<Rightarrow> int"
  markTime :: "nat \<Rightarrow> int"

record run =
  reply :: "js_error + string"          \<comment> \<open>\<open>Inl\<close>: the promise is rejected with this error\<close>
  finalPool :: pool
  calls :: "(nat \<times> chat_message list) list"  \<comment> \<open>backend invocations: key index and messages sent\<close>

definition maxAttempts :: "env \<Rightarrow> int" where
  \<comment> \<open>\<^verbatim>\<open>Math.max(1, env.GROQ_MAX_ATTEMPTS ? parseInt(env.GROQ_MAX_ATTEMPTS) : 3)\<close>\<close>
  "maxAttempts e = max 1 (case GROQ_MAX_ATTEMPTS e of Some n \<Rightarrow> n | None \<Rightarrow> 3)"

definition cooldownSeconds :: "env \<Rightarrow> int" where
  \<comment> \<open>\<^verbatim>\<open>parseInt(env.GROQ_KEY_COOLDOWN_SECONDS || '3600')\<close>\<close>
  "cooldownSeconds e = (case GROQ_KEY_COOLDOWN_SECONDS e of Some n \<Rightarrow> n | None \<Rightarrow> 3600)"

definition isRateLimit :: "js_error \<Rightarrow> bool" where
  "isRateLimit error =
     (status error = Some 429
      \<or> includesCI ''rate limit'' (messageOf error)
      \<or> includesCI ''quota'' (messageOf error)
      \<or> includesCI ''too many requests'' (messageOf error))"

definition isAuth :: "js_error \<Rightarrow> bool" where
  "isAuth error =
     (status error = Some 401
      \<or> includesCI ''invalid api key'' (messageOf error)
      \<or> includesCI ''unauthorized'' (messageOf error))"

definition noKeysText :: "env \<Rightarrow> string" where
  "noKeysText e =
     ''The AI service is currently unavailable (no API keys). ''
   @ ''(Env vars: GROQ_API_KEYS='' @ showBool (truthyStr (GROQ_API_KEYS e))
   @ '', GROQ_API_KEY='' @ showBool (truthyStr (GROQ_API_KEY e)) @ '')''
   @ '' Please try again later or use FAQ mode.''"

definition noContentText :: string where
  "noContentText = ''I apologize, but I could not generate a response. Please try again.''"

definition authErrorText :: string where
  "authErrorText = ''AI service authentication error. Please check the API key configuration.''"

definition otherErrorText :: string where
  "otherErrorText = ''An error occurred while contacting the AI service. Please try again later or use FAQ mode.''"

definition allFailedText :: string where
  "allFailedText = ''The AI service is currently unavailable due to rate limits or errors. Please try again later.''"

definition highDemandText :: string where
  "highDemandText = ''I apologize, but the AI service is currently experiencing high demand. Please try again in a moment or switch to FAQ mode for instant answers.''"

definition configErrorText :: string where
  "configErrorText = ''AI service configuration error. Please contact the administrator.''"

definition finish :: "string \<Rightarrow> pool \<Rightarrow> run" where
  "finish t p = \<lparr>reply = Inr t, finalPool = p, calls = []\<rparr>"

definition raise :: "js_error \<Rightarrow> pool \<Rightarrow> run" where
  \<comment> \<open>an exception on its way to the outer \<^verbatim>\<open>catch\<close>\<close>
  "raise error p = \<lparr>reply = Inl error, finalPool = p, calls = []\<rparr>"

definition logCall :: "nat \<times> chat_message list \<Rightarrow> run \<Rightarrow> run" where
  "logCall c r = r\<lparr>calls := c # calls r\<rparr>"

fun attemptLoop :: "world \<Rightarrow> env \<Rightarrow> chat_message list \<Rightarrow> nat \<Rightarrow> nat \<Rightarrow> pool \<Rightarrow> run" where
  \<comment> \<open>the \<^verbatim>\<open>for\<close> loop at iteration \<open>attempt\<close> with \<open>left = maxAttempts - attempt\<close> iterations to go\<close>
  "attemptLoop w e messages attempt 0 p = finish allFailedText p"
| "attemptLoop w e messages attempt (Suc left) p =
     (case getAvailableClient (selectTime w attempt) p of
        (None, p') \<Rightarrow> finish (noKeysText e) p'
      | (Some keyIndex, p') \<Rightarrow>
          logCall (keyIndex, messages)
            (case respond w attempt keyIndex messages of
               Returned c \<Rightarrow>
                 (case c of
                    None \<Rightarrow> finish noContentText p'
                  | Some t \<Rightarrow> finish (if t \<noteq> [] then t else noContentText) p')
             | Thrown error \<Rightarrow>
                 if isRateLimit error then
                   \<comment> \<open>an exception of \<^verbatim>\<open>markKeyLimited\<close> is caught and only logged\<close>
                   (case markKeyLimited (int keyIndex) (cooldownSeconds e) (markTime w attempt) (keyStatus p') of
                      (raised, ks) \<Rightarrow> attemptLoop w e messages (Suc attempt) left (p'\<lparr>keyStatus := ks\<rparr>))
                 else if isAuth error then finish authErrorText p'
                 else finish otherErrorText p'
             | ThrownNullish v \<Rightarrow> raise (readOfNullish v) p'))"

definition chatWithAI :: "world \<Rightarrow> env \<Rightarrow> pool \<Rightarrow> string \<Rightarrow> history_arg \<Rightarrow> run" where
  "chatWithAI w e p userMessage conversationHistory =
     (let r = (case conversationHistory of
                 NotIterable \<Rightarrow> raise notIterableError p
               | Messages history \<Rightarrow>
                   (let messages = \<lparr>role = ''system'', content = SKSU_CONTEXT\<rparr> # history
                                     @ [\<lparr>role = ''user'', content = userMessage\<rparr>]
                    in attemptLoop w e messages 0 (nat (maxAttempts e)) p))
      in case reply r of
           Inr t \<Rightarrow> r
         | Inl error \<Rightarrow>
             \<comment> \<open>the outer \<^verbatim>\<open>catch\<close>\<close>
             if status error = Some 429 then r\<lparr>reply := Inr highDemandText\<rparr>
             else if status error = Some 401 then r\<lparr>reply := Inr configErrorText\<rparr>
             else r)"

section \<open>The multi-provider dispatcher\<close>

text \<open>
  A provider object carries its name, its priority and the same two health fields as a
  key; its \<^verbatim>\<open>client\<close> is opaque and never changes.
\<close>

record provider = key_status +
  name :: string
  priority :: int

definition newProvider :: "string \<Rightarrow> int \<Rightarrow> provider" where
  "newProvider n pr = \<lparr>limited = False, resetTime = None, name = n, priority = pr\<rparr>"

definition initProviders :: "env \<Rightarrow> provider list" where
  \<comment> \<open>the three initialisation blocks; the SDK constructors are taken to succeed\<close>
  "initProviders e =
     (if truthyStr (GEMINI_API_KEY e) then [newProvider ''gemini'' 1] else [])
   @ (if truthyStr (COHERE_API_KEY e) then [newProvider ''cohere'' 2] else [])
   @ (if truthyStr (GROQ_API_KEY e) \<or> truthyStr (GROQ_API_KEYS e) then
        (let key = (if truthyStr (GROQ_API_KEY e) then GROQ_API_KEY e
                    else (case GROQ_API_KEYS e of
                            None \<Rightarrow> None
                          | Some s \<Rightarrow> (case splitComma s of [] \<Rightarrow> None | k # _ \<Rightarrow> Some k)))
         in if truthyStr key then [newProvider ''groq'' 3] else [])
      else [])"

fun markProviderLimited :: "string \<Rightarrow> int \<Rightarrow> int \<Rightarrow> provider list \<Rightarrow> provider list" where
  \<comment> \<open>\<^verbatim>\<open>providers.find(p => p.name === providerName)\<close> and the update of the provider found;
      the time that the log line formats is a clock reading plus a fixed cooldown\<close>
  "markProviderLimited providerName seconds now [] = []"
| "markProviderLimited providerName seconds now (p # ps) =
     (if name p = providerName
      then p\<lparr>limited := True, resetTime := Some (now + seconds * 1000)\<rparr> # ps
      else p # markProviderLimited providerName seconds now ps)"

definition resetExpiredProviders :: "int \<Rightarrow> provider list \<Rightarrow> provider list" where
  "resetExpiredProviders now ps =
     map (\<lambda>p. if limited p \<and> truthyNum (resetTime p)
                  \<and> (case resetTime p of None \<Rightarrow> False | Some r \<Rightarrow> now > r)
               then p\<lparr>limited := False, resetTime := None\<rparr> else p) ps"

definition getAvailableProviders :: "int \<Rightarrow> provider list \<Rightarrow> provider list \<times> provider list" where
  \<comment> \<open>the array returned (a stable sort of the providers that are not limited) and the
      providers after the reset\<close>
  "getAvailableProviders now ps =
     (let ps' = resetExpiredProviders now ps
      in (sort_key priority (filter (\<lambda>p. \<not> limited p) ps'), ps'))"

definition isRateLimitP :: "js_error \<Rightarrow> bool" where
  "isRateLimitP error =
     (status error = Some 429 \<or> statusCode error = Some 429
      \<or> includesCI ''rate limit'' (messageOf error)
      \<or> includesCI ''quota'' (messageOf error)
      \<or> includesCI ''too many requests'' (messageOf error)
      \<or> includesCI ''resource exhausted'' (messageOf error))"

definition isAuthP :: "js_error \<Rightarrow> bool" where
  "isAuthP error =
     (status error = Some 401 \<or> statusCode error = Some 401
      \<or> includesThenCI ''invalid'' ''key'' (messageOf error)
      \<or> includesCI ''unauthorized'' (messageOf error)
      \<or> includesCI ''authentication'' (messageOf error))"

text \<open>
  The world of this dispatcher: what the adapter of the provider tried at position \<open>k\<close>
  of the loop does (\<^verbatim>\<open>chatWithGemini\<close>, \<^verbatim>\<open>chatWithCohere\<close> or \<^verbatim>\<open>chatWithGroq\<close>, chosen
  by name) with the user message and the history argument, which \<^verbatim>\<open>chatWithAI\<close> itself
  never reads, and the clock reading of \<^verbatim>\<open>markProviderLimited\<close> at that position.  The
  \<^verbatim>\<open>catch\<close> of the loop reads \<^verbatim>\<open>error.message\<close> first; when the value caught is nullish that
  read throws out of the loop and the call is rejected.
\<close>

record pworld =
  invoke :: "nat \<Rightarrow> string \<Rightarrow> string \<Rightarrow> history_arg \<Rightarrow> outcome"
  failTime :: "nat \<Rightarrow> int"

record prun =
  ptext :: "js_error + string"  \<comment> \<open>\<open>Inl\<close>: the promise is rejected with this error\<close>
  providers :: "provider list"
  invoked :: "string list"   \<comment> \<open>the providers whose adapter was called, in order\<close>

definition knownProvider :: "string \<Rightarrow> bool" where
  \<comment> \<open>the cases of the \<^verbatim>\<open>switch\<close>\<close>
  "knownProvider n = (n = ''gemini'' \<or> n = ''cohere'' \<or> n = ''groq'')"

definition noProvidersText :: string where
  "noProvidersText = ''The AI service is currently unavailable. All providers are rate-limited or not configured. Please try again later or use FAQ mode.''"

definition allProvidersFailedText :: string where
  "allProvidersFailedText = ''I apologize, but all AI services are currently unavailable. Please try again later or use FAQ mode for instant answers.''"

definition logInvoke :: "string \<Rightarrow> prun \<Rightarrow> prun" where
  "logInvoke n r = r\<lparr>invoked := n # invoked r\<rparr>"

fun providerLoop ::
  "pworld \<Rightarrow> string \<Rightarrow> history_arg \<Rightarrow> nat \<Rightarrow> provider list \<Rightarrow> provider list \<Rightarrow> prun" where
  \<comment> \<open>\<^verbatim>\<open>for (const provider of availableProviders)\<close> from position \<open>k\<close> on; the fifth argument
      is the rest of the array, the sixth the module's \<^verbatim>\<open>providers\<close>\<close>
  "providerLoop w userMessage history k [] ps =
     \<lparr>ptext = Inr allProvidersFailedText, providers = ps, invoked = []\<rparr>"
| "providerLoop w userMessage history k (p # rest) ps =
     (if \<not> knownProvider (name p) then providerLoop w userMessage history (Suc k) rest ps
      else
        logInvoke (name p)
          (case invoke w k (name p) userMessage history of
             Returned response \<Rightarrow>
               (case response of
                  None \<Rightarrow> providerLoop w userMessage history (Suc k) rest ps
                | Some t \<Rightarrow>
                    if t \<noteq> [] then \<lparr>ptext = Inr t, providers = ps, invoked = []\<rparr>
                    else providerLoop w userMessage history (Suc k) rest ps)
           | Thrown error \<Rightarrow>
               if isRateLimitP error then
                 providerLoop w userMessage history (Suc k) rest
                   (markProviderLimited (name p) 3600 (failTime w k) ps)
               else if isAuthP error then
                 providerLoop w userMessage history (Suc k) rest
                   (markProviderLimited (name p) 86400 (failTime w k) ps)
               else providerLoop w userMessage history (Suc k) rest ps
           | ThrownNullish v \<Rightarrow>
               \<lparr>ptext = Inl (readOfNullish v), providers = ps, invoked = []\<rparr>))"

definition chatWithAI_providers ::
  "pworld \<Rightarrow> int \<Rightarrow> provider list \<Rightarrow> string \<Rightarrow> history_arg \<Rightarrow> prun" where
  \<comment> \<open>\<^verbatim>\<open>chatWithAI\<close> of the multi-provider module, entered at time \<open>now\<close>\<close>
  "chatWithAI_providers w now ps userMessage conversationHistory =
     (case getAvailableProviders now ps of
        (availableProviders, ps') \<Rightarrow>
          if length availableProviders = 0
          then \<lparr>ptext = Inr noProvidersText, providers = ps', invoked = []\<rparr>
          else providerLoop w userMessage conversationHistory 0 availableProviders ps')"

definition getProvidersInfo :: "provider list \<Rightarrow> (string \<times> int \<times> bool \<times> int option) list" where
  "getProvidersInfo ps = map (\<lambda>p. (name p, priority p, limited p, resetTime p)) ps"

section \<open>Sequences of pool operations\<close>

datatype pool_op =
    GetAvailableClient int        \<comment> \<open>at this time\<close>
  | MarkKeyLimited int int int    \<comment> \<open>index, seconds, at this time\<close>
  | GetKeysInfo

fun applyOp :: "pool \<Rightarrow> pool_op \<Rightarrow> pool" where
  "applyOp p (GetAvailableClient now) = snd (getAvailableClient now p)"
| "applyOp p (MarkKeyLimited index seconds now) =
     p\<lparr>keyStatus := snd (markKeyLimited index seconds now (keyStatus p))\<rparr>"
| "applyOp p GetKeysInfo = p"

definition runOps :: "pool \<Rightarrow> pool_op list \<Rightarrow> pool" where
  "runOps p ops = foldl applyOp p ops"

section \<open>Concrete scenarios\<close>

definition envEmpty :: env where
  \<comment> \<open>no variable set\<close>
  "envEmpty = \<lparr>GROQ_API_KEYS = None, GROQ_API_KEY = None, GROQ_API_KEY_1 = None, GROQ_API_KEY_2 = None, GROQ_MAX_ATTEMPTS = None, GROQ_KEY_COOLDOWN_SECONDS = None, GEMINI_API_KEY = None, COHERE_API_KEY = None\<rparr>"

definition twoKeys :: pool where
  \<comment> \<open>the pool at start-up with two keys\<close>
  "twoKeys = initPool [''key-a'', ''key-b'']"

definition exampleOps :: "pool_op list" where
  "exampleOps = [MarkKeyLimited 0 3600 1000, GetAvailableClient 2000, GetKeysInfo,
                 MarkKeyLimited 1 60 3000, GetAvailableClient 4000000, MarkKeyLimited 7 60 4000001,
                 MarkKeyLimited 1 60 4000001]"

definition worldHello :: world where
  "worldHello = \<lparr>respond = (\<lambda>k idx ms. Returned (Some ''Hello!'')),
                 selectTime = (\<lambda>k. 2000 + int k), markTime = (\<lambda>k. 2500 + int k)\<rparr>"

definition worldAuthFail :: world where
  "worldAuthFail = \<lparr>respond = (\<lambda>k idx ms. Thrown \<lparr>status = Some 401, statusCode = None, message = Some ''Invalid API Key''\<rparr>),
                 selectTime = (\<lambda>k. 2000 + int k), markTime = (\<lambda>k. 2500 + int k)\<rparr>"

definition worldTransient :: world where
  "worldTransient = \<lparr>respond = (\<lambda>k idx ms. Thrown \<lparr>status = Some 500, statusCode = None, message = Some ''socket hang up''\<rparr>),
                 selectTime = (\<lambda>k. 2000 + int k), markTime = (\<lambda>k. 2500 + int k)\<rparr>"

definition worldRateLimited :: world where
  "worldRateLimited = \<lparr>respond = (\<lambda>k idx ms. Thrown \<lparr>status = Some 429, statusCode = None, message = Some ''Too Many Requests''\<rparr>),
                 selectTime = (\<lambda>k. 2000 + int k), markTime = (\<lambda>k. 2500 + int k)\<rparr>"

definition envOnlyKey1 :: env where
  "envOnlyKey1 = envEmpty\<lparr>GROQ_API_KEY_1 := Some ''key-a''\<rparr>"

definition envTwoAttempts :: env where
  "envTwoAttempts = envEmpty\<lparr>GROQ_API_KEYS := Some ''key-a, key-b'', GROQ_MAX_ATTEMPTS := Some 2\<rparr>"

definition quarantinedPool :: pool where
  "quarantinedPool = (initPool (uniqueKeys envOnlyKey1))
     \<lparr>keyStatus := snd (markKeyLimited 0 3600 1000 (keyStatus (initPool (uniqueKeys envOnlyKey1))))\<rparr>"

definition fourKeys :: pool where
  "fourKeys = initPool [''key-a'', ''key-b'', ''key-c'', ''key-d'']"

definition worldNoContent :: world where
  "worldNoContent = \<lparr>respond = (\<lambda>k idx ms. Returned None),
                 selectTime = (\<lambda>k. 2000 + int k), markTime = (\<lambda>k. 2500 + int k)\<rparr>"

definition envAllProviders :: env where
  "envAllProviders = envEmpty\<lparr>GROQ_API_KEY := Some ''key-a'', GEMINI_API_KEY := Some ''key-g'', COHERE_API_KEY := Some ''key-c''\<rparr>"

definition worldThrowsNull :: world where
  "worldThrowsNull = \<lparr>respond = (\<lambda>k idx ms. ThrownNullish Null),
                 selectTime = (\<lambda>k. 2000 + int k), markTime = (\<lambda>k. 2500 + int k)\<rparr>"

definition pworldThrowsUndefined :: pworld where
  "pworldThrowsUndefined = \<lparr>invoke = (\<lambda>k n um h. ThrownNullish Undefined), failTime = (\<lambda>k. 5000 + int k)\<rparr>"


definition pworldGeminiAuthFail :: pworld where
  "pworldGeminiAuthFail =
     \<lparr>invoke = (\<lambda>k n um h. if n = ''gemini''
                             then Thrown \<lparr>status = None, statusCode = Some 401, message = Some ''API key rejected''\<rparr>
                             else Returned (Some ''ok'')),
      failTime = (\<lambda>k. 5000 + int k)\<rparr>"

definition pworldGeminiTransient :: pworld where
  "pworldGeminiTransient =
     \<lparr>invoke = (\<lambda>k n um h. if n = ''gemini''
                             then Thrown \<lparr>status = Some 503, statusCode = None, message = Some ''fetch failed''\<rparr>
                             else Returned (Some ''ok'')),
      failTime = (\<lambda>k. 5000 + int k)\<rparr>"

definition pworldAllTransient :: pworld where
  "pworldAllTransient =
     \<lparr>invoke = (\<lambda>k n um h. Thrown \<lparr>status = Some 503, statusCode = None, message = Some ''fetch failed''\<rparr>),
      failTime = (\<lambda>k. 5000 + int k)\<rparr>"

definition historyWithSystem :: "chat_message list" where
  "historyWithSystem = [\<lparr>role = ''system'', content = ''Answer in one word.''\<rparr>,
                        \<lparr>role = ''user'', content = ''Where is SKSU?''\<rparr>,
                        \<lparr>role = ''assistant'', content = ''Tacurong.''\<rparr>]"

definition authError :: js_error where
  "authError = \<lparr>status = None, statusCode = Some 401, message = Some ''API key rejected''\<rparr>"

definition transientError :: js_error where
  "transientError = \<lparr>status = Some 503, statusCode = None, message = Some ''fetch failed''\<rparr>"

section \<open>Properties of the key pool\<close>

lemma length_resetIfExpired [simp]: "length (resetIfExpired i now ks) = length ks"
  by (simp add: resetIfExpired_def Let_def)

lemma resetIfExpired_eq: "i < length ks \<Longrightarrow> resetIfExpired i now ks = ks[i := resetStatus now (ks ! i)]"
  by (simp add: resetIfExpired_def resetStatus_def Let_def)

lemma fold_reset_prefix:
  "m \<le> length ks \<Longrightarrow>
   fold (\<lambda>i. resetIfExpired i now) [0..<m] ks = map (resetStatus now) (take m ks) @ drop m ks"
proof (induction m)
  case 0
  then show ?case by simp
next
  case (Suc m)
  then have m: "m < length ks" by simp
  have "fold (\<lambda>i. resetIfExpired i now) [0..<Suc m] ks
        = resetIfExpired m now (map (resetStatus now) (take m ks) @ drop m ks)"
    using Suc by simp
  also have "\<dots> = (map (resetStatus now) (take m ks) @ drop m ks)[m := resetStatus now (ks ! m)]"
    using m by (simp add: resetIfExpired_eq nth_append)
  also have "\<dots> = map (resetStatus now) (take (Suc m) ks) @ drop (Suc m) ks"
    using m by (simp add: list_update_append take_Suc_conv_app_nth Cons_nth_drop_Suc [symmetric])
  finally show ?case .
qed

lemma resetAllExpired_map: "resetAllExpired now ks = map (resetStatus now) ks"
  by (simp add: resetAllExpired_def fold_reset_prefix)

lemma resetStatus_not_limited: "\<not> limited st \<Longrightarrow> resetStatus now st = st"
  by (simp add: resetStatus_def)

lemma rotation_onto:
  assumes "j < (n::nat)"
  shows "\<exists>i<n. (c + i) mod n = j"
proof -
  let ?i = "(j + (n - c mod n)) mod n"
  have n: "0 < n" using assms by simp
  have "(c + ?i) mod n = (c mod n + (j + (n - c mod n))) mod n"
    by (metis mod_add_eq mod_mod_trivial)
  also have "c mod n + (j + (n - c mod n)) = j + n"
    using n mod_less_divisor [of n c] by (simp del: mod_less_divisor)
  also have "(j + n) mod n = j" using assms by simp
  finally have "(c + ?i) mod n = j" .
  moreover have "?i < n" using n by simp
  ultimately show ?thesis by blast
qed

lemma getAvailableClient_Some:
  assumes "getAvailableClient now p = (Some idx, p')"
  shows "idx < length (keyStatus p)"
    and "\<not> limited (resetStatus now (keyStatus p ! idx))"
    and "p' = \<lparr>keyStatus = map (resetStatus now) (keyStatus p), currentIndex = idx\<rparr>"
proof -
  let ?n = "length (keyStatus p)"
  let ?ks = "map (resetStatus now) (keyStatus p)"
  from assms have n: "?n \<noteq> 0"
    by (auto simp: getAvailableClient_def)
  from assms obtain i where
    f: "find (\<lambda>i. \<not> limited (?ks ! ((currentIndex p + i) mod ?n))) [0..<?n] = Some i"
    and idx: "idx = (currentIndex p + i) mod ?n"
    and p': "p' = \<lparr>keyStatus = ?ks, currentIndex = idx\<rparr>"
    using n by (auto simp: getAvailableClient_def resetAllExpired_map Let_def split: option.splits)
  show "idx < ?n" using idx n by simp
  then show "\<not> limited (resetStatus now (keyStatus p ! idx))"
    using f idx by (auto simp: find_Some_iff)
  show "p' = \<lparr>keyStatus = ?ks, currentIndex = idx\<rparr>" by (rule p')
qed

lemma getAvailableClient_None:
  assumes "getAvailableClient now p = (None, p')"
  shows "currentIndex p' = currentIndex p"
    and "\<forall>j < length (keyStatus p). limited (resetStatus now (keyStatus p ! j))"
    and "keyStatus p' = map (resetStatus now) (keyStatus p)"
proof -
  let ?n = "length (keyStatus p)"
  let ?ks = "map (resetStatus now) (keyStatus p)"
  show "currentIndex p' = currentIndex p"
    using assms by (auto simp: getAvailableClient_def Let_def split: option.splits if_splits)
  show "keyStatus p' = ?ks"
    using assms by (auto simp: getAvailableClient_def resetAllExpired_map Let_def split: option.splits if_splits)
  show "\<forall>j < ?n. limited (resetStatus now (keyStatus p ! j))"
  proof (intro allI impI)
    fix j assume j: "j < ?n"
    then have n: "?n \<noteq> 0" by auto
    from assms n have f: "find (\<lambda>i. \<not> limited (?ks ! ((currentIndex p + i) mod ?n))) [0..<?n] = None"
      by (auto simp: getAvailableClient_def resetAllExpired_map Let_def split: option.splits)
    from rotation_onto [OF j] obtain i where i: "i < ?n" "(currentIndex p + i) mod ?n = j" by blast
    from f i have "limited (?ks ! j)" by (auto simp: find_None_iff)
    then show "limited (resetStatus now (keyStatus p ! j))" using j by simp
  qed
qed

lemma getAvailableClient_at_cursor:
  assumes "currentIndex p < length (keyStatus p)"
    and "\<not> limited (keyStatus p ! currentIndex p)"
  shows "getAvailableClient now p =
         (Some (currentIndex p), \<lparr>keyStatus = map (resetStatus now) (keyStatus p), currentIndex = currentIndex p\<rparr>)"
proof -
  let ?n = "length (keyStatus p)"
  have n: "0 < ?n" using assms by auto
  have u: "[0..<?n] = 0 # [1..<?n]" using n by (simp add: upt_conv_Cons)
  show ?thesis
    using assms n
    by (simp add: getAvailableClient_def resetAllExpired_map Let_def u resetStatus_not_limited
        del: upt_Suc)
qed

lemma getAvailableClient_all_limited:
  assumes "keyStatus p \<noteq> []"
    and "\<forall>j < length (keyStatus p). limited (resetStatus now (keyStatus p ! j))"
  shows "getAvailableClient now p =
         (None, \<lparr>keyStatus = map (resetStatus now) (keyStatus p), currentIndex = currentIndex p\<rparr>)"
proof -
  let ?n = "length (keyStatus p)"
  let ?ks = "map (resetStatus now) (keyStatus p)"
  have "find (\<lambda>i. \<not> limited (?ks ! ((currentIndex p + i) mod ?n))) [0..<?n] = None"
    using assms by (auto simp: find_None_iff)
  then show ?thesis using assms(1)
    by (simp add: getAvailableClient_def resetAllExpired_map Let_def)
qed

text \<open>
  Claim C4, as the code has it.  \<^verbatim>\<open>getAvailableClient\<close> sets the cursor to the index it
  returns, not past it: a call that returns a key leaves the cursor on that key, so the
  next call, at whatever time, returns the same key again; the keys take turns only when
  the key under the cursor becomes limited.  A call that returns nothing leaves the cursor
  where it was.
\<close>

theorem selection_keeps_cursor_on_returned_key:
  "(\<forall>idx p'. getAvailableClient now p = (Some idx, p') \<longrightarrow>
       currentIndex p' = idx \<and> fst (getAvailableClient now' p') = Some idx)
   \<and> (\<forall>p'. getAvailableClient now p = (None, p') \<longrightarrow> currentIndex p' = currentIndex p)"
proof (intro conjI allI impI)
  fix idx p' assume a: "getAvailableClient now p = (Some idx, p')"
  note s = getAvailableClient_Some [OF a]
  show "currentIndex p' = idx" using s(3) by simp
  have "currentIndex p' < length (keyStatus p')" using s(1,3) by simp
  moreover have "\<not> limited (keyStatus p' ! currentIndex p')" using s by simp
  ultimately show "fst (getAvailableClient now' p') = Some idx"
    using s(3) by (simp add: getAvailableClient_at_cursor)
next
  fix p' assume "getAvailableClient now p = (None, p')"
  then show "currentIndex p' = currentIndex p" by (rule getAvailableClient_None(1))
qed

lemma markKeyLimited_length [simp]: "length (snd (markKeyLimited index d now ks)) = length ks"
  by (simp add: markKeyLimited_def Let_def)

lemma markKeyLimited_nth:
  "0 \<le> index \<Longrightarrow> index < int (length ks) \<Longrightarrow>
   snd (markKeyLimited index d now ks) ! nat index = \<lparr>limited = True, resetTime = Some (now + d * 1000)\<rparr>"
  by (simp add: markKeyLimited_def Let_def)

lemma markKeyLimited_other:
  "j \<noteq> nat index \<Longrightarrow> snd (markKeyLimited index d now ks) ! j = ks ! j"
  by (simp add: markKeyLimited_def Let_def)

theorem selection_keeps_cursor_on_returned_key_witness:
  "getAvailableClient 1000 twoKeys = (Some 0, twoKeys)
   \<and> currentIndex twoKeys = 0
   \<and> fst (getAvailableClient 2000 twoKeys) = Some 0
   \<and> getAvailableClient 2000 \<lparr>keyStatus = [\<lparr>limited = True, resetTime = Some 5000\<rparr>], currentIndex = 0\<rparr>
       = (None, \<lparr>keyStatus = [\<lparr>limited = True, resetTime = Some 5000\<rparr>], currentIndex = 0\<rparr>)"
proof -
  have a: "getAvailableClient 1000 twoKeys = (Some 0, twoKeys)"
    by code_simp
  have b: "getAvailableClient 2000 \<lparr>keyStatus = [\<lparr>limited = True, resetTime = Some 5000\<rparr>], currentIndex = 0\<rparr>
       = (None, \<lparr>keyStatus = [\<lparr>limited = True, resetTime = Some 5000\<rparr>], currentIndex = 0\<rparr>)"
    by code_simp
  from selection_keeps_cursor_on_returned_key [of 1000 twoKeys 2000] a
  have "currentIndex twoKeys = 0 \<and> fst (getAvailableClient 2000 twoKeys) = Some 0"
    by blast
  with a b show ?thesis by simp
qed

text \<open>
  Two keys, neither limited, health state unchanged: the second of two consecutive calls
  returns the key the first one returned.
\<close>

theorem consecutive_selection_counterexample:
  "\<not> limited (keyStatus twoKeys ! 0) \<and> \<not> limited (keyStatus twoKeys ! 1)
   \<and> keyStatus (snd (getAvailableClient 1000 twoKeys)) = keyStatus twoKeys
   \<and> fst (getAvailableClient 1000 twoKeys) = Some 0
   \<and> fst (getAvailableClient 2000 (snd (getAvailableClient 1000 twoKeys))) = Some 0"
  by code_simp

lemma getAvailableClient_keyStatus:
  "keyStatus (snd (getAvailableClient now p)) = map (resetStatus now) (keyStatus p)"
  by (simp add: getAvailableClient_def resetAllExpired_map Let_def split: option.split)

text \<open>
  Claim C8.  Marking a key of the pool at time \<open>now\<close> for \<open>d\<close> seconds stores the expiry
  \<open>now + d * 1000\<close> (milliseconds), whatever the key's status was before; marking it again,
  as a rate-limit classification does with the configured short cooldown, replaces the
  stored expiry by the new one.
\<close>

theorem markKeyLimited_overwrites:
  assumes "0 \<le> index" and "index < int (length ks)"
  shows "snd (markKeyLimited index d now ks) ! nat index
           = \<lparr>limited = True, resetTime = Some (now + d * 1000)\<rparr>
       \<and> snd (markKeyLimited index (cooldownSeconds e) now'
                (snd (markKeyLimited index d now ks))) ! nat index
           = \<lparr>limited = True, resetTime = Some (now' + cooldownSeconds e * 1000)\<rparr>"
  using assms by (simp add: markKeyLimited_nth)

theorem markKeyLimited_overwrites_witness:
  "snd (markKeyLimited 0 86400 1000 (keyStatus twoKeys)) ! nat 0
     = \<lparr>limited = True, resetTime = Some (1000 + 86400 * 1000)\<rparr>
   \<and> snd (markKeyLimited 0 (cooldownSeconds envEmpty) 2000
        (snd (markKeyLimited 0 86400 1000 (keyStatus twoKeys)))) ! nat 0
     = \<lparr>limited = True, resetTime = Some (2000 + 3600 * 1000)\<rparr>"
proof -
  have h: "(0::int) \<le> 0" "(0::int) < int (length (keyStatus twoKeys))"
    by (simp_all add: twoKeys_def initPool_def)
  show ?thesis
    using markKeyLimited_overwrites [OF h, of 86400 1000 envEmpty 2000]
    by (simp add: cooldownSeconds_def envEmpty_def)
qed

text \<open>
  Claim C5.  A key is marked at time \<open>t\<close> (a clock reading, hence positive) for a cooldown
  of \<open>d \<ge> 0\<close> seconds.  At every query time up to \<open>t + d * 1000\<close>, which includes the
  whole interval \<open>(t, t + d]\<close> of the claim, the expiry check leaves the key limited and
  \<^verbatim>\<open>getAvailableClient\<close> does not return it.  At every later query time the check resets
  the key to \<^verbatim>\<open>{limited: false, resetTime: null}\<close>, the pool after the selection holds
  that state, and the selection returns a key.
\<close>

theorem quarantine_window:
  assumes "0 \<le> index" and "index < int (length ks)"
    and "0 < t" and "0 \<le> d"
    and "ks1 = snd (markKeyLimited index d t ks)"
  shows "(q \<le> t + d * 1000 \<longrightarrow>
            limited (resetIfExpired (nat index) q ks1 ! nat index)
          \<and> fst (getAvailableClient q \<lparr>keyStatus = ks1, currentIndex = c\<rparr>) \<noteq> Some (nat index))
       \<and> (q > t + d * 1000 \<longrightarrow>
            resetIfExpired (nat index) q ks1 ! nat index = \<lparr>limited = False, resetTime = None\<rparr>
          \<and> keyStatus (snd (getAvailableClient q \<lparr>keyStatus = ks1, currentIndex = c\<rparr>)) ! nat index
              = \<lparr>limited = False, resetTime = None\<rparr>
          \<and> fst (getAvailableClient q \<lparr>keyStatus = ks1, currentIndex = c\<rparr>) \<noteq> None)"
proof -
  let ?i = "nat index"
  let ?p = "\<lparr>keyStatus = ks1, currentIndex = c\<rparr>"
  have i: "?i < length ks1" using assms by simp
  have st: "ks1 ! ?i = \<lparr>limited = True, resetTime = Some (t + d * 1000)\<rparr>"
    using assms by (simp add: markKeyLimited_nth)
  have nz: "t + d * 1000 \<noteq> 0" using assms(3,4) by simp
  have early: "limited (resetStatus q (ks1 ! ?i))" if "q \<le> t + d * 1000"
    using that st by (simp add: resetStatus_def)
  have late: "resetStatus q (ks1 ! ?i) = \<lparr>limited = False, resetTime = None\<rparr>" if "q > t + d * 1000"
    using that st nz by (simp add: resetStatus_def truthyNum_def)
  show ?thesis
  proof (intro conjI impI)
    assume q: "q \<le> t + d * 1000"
    show "limited (resetIfExpired ?i q ks1 ! ?i)"
      using i early [OF q] by (simp add: resetIfExpired_eq)
    show "fst (getAvailableClient q ?p) \<noteq> Some ?i"
    proof
      assume "fst (getAvailableClient q ?p) = Some ?i"
      then obtain p' where "getAvailableClient q ?p = (Some ?i, p')"
        by (cases "getAvailableClient q ?p") simp
      from getAvailableClient_Some(2) [OF this]
      have "\<not> limited (resetStatus q (ks1 ! ?i))" by simp
      then show False using early [OF q] by simp
    qed
  next
    assume q: "q > t + d * 1000"
    show "resetIfExpired ?i q ks1 ! ?i = \<lparr>limited = False, resetTime = None\<rparr>"
      using i late [OF q] by (simp add: resetIfExpired_eq)
    show "keyStatus (snd (getAvailableClient q ?p)) ! ?i = \<lparr>limited = False, resetTime = None\<rparr>"
      using i late [OF q] by (simp add: getAvailableClient_keyStatus)
    show "fst (getAvailableClient q ?p) \<noteq> None"
    proof
      assume "fst (getAvailableClient q ?p) = None"
      then obtain p' where "getAvailableClient q ?p = (None, p')"
        by (cases "getAvailableClient q ?p") simp
      from getAvailableClient_None(2) [OF this] i
      have "limited (resetStatus q (ks1 ! ?i))" by simp
      then show False by (simp add: late [OF q])
    qed
  qed
qed

theorem quarantine_window_witness:
  "limited (resetIfExpired 0 3601000 (snd (markKeyLimited 0 3600 1000 (keyStatus twoKeys))) ! 0)
   \<and> fst (getAvailableClient 3601000
          \<lparr>keyStatus = snd (markKeyLimited 0 3600 1000 (keyStatus twoKeys)), currentIndex = 0\<rparr>) \<noteq> Some 0
   \<and> resetIfExpired 0 3601001 (snd (markKeyLimited 0 3600 1000 (keyStatus twoKeys))) ! 0
       = \<lparr>limited = False, resetTime = None\<rparr>
   \<and> fst (getAvailableClient 3601001
          \<lparr>keyStatus = snd (markKeyLimited 0 3600 1000 (keyStatus twoKeys)), currentIndex = 0\<rparr>) \<noteq> None"
proof -
  have h: "(0::int) \<le> 0" "(0::int) < int (length (keyStatus twoKeys))" "(0::int) < 1000" "(0::int) \<le> 3600"
    by (simp_all add: twoKeys_def initPool_def)
  note w = quarantine_window [OF h refl]
  show ?thesis
    using w [of 3601000 0] w [of 3601001 0] by simp
qed

lemma statusInv_resetStatus: "statusInv s \<Longrightarrow> statusInv (resetStatus now s)"
  by (simp add: statusInv_def resetStatus_def)

lemma statusInv_markKeyLimited:
  assumes "\<forall>s \<in> set ks. statusInv s"
  shows "\<forall>s \<in> set (snd (markKeyLimited index d now ks)). statusInv s"
proof (cases "index < 0 \<or> index \<ge> int (length ks)")
  case True
  then show ?thesis using assms by (simp add: markKeyLimited_def)
next
  case False
  let ?x = "(ks ! nat index)\<lparr>limited := True, resetTime := Some (now + d * 1000)\<rparr>"
  have x: "statusInv ?x"
    by (simp add: statusInv_def)
  have "set (ks[nat index := ?x]) \<subseteq> insert ?x (set ks)"
    by (rule set_update_subset_insert)
  moreover have "snd (markKeyLimited index d now ks) = ks[nat index := ?x]"
    using False by (simp add: markKeyLimited_def Let_def)
  ultimately show ?thesis
    using x assms by auto
qed

lemma statusInv_getAvailableClient:
  assumes "\<forall>s \<in> set (keyStatus p). statusInv s"
  shows "\<forall>s \<in> set (keyStatus (snd (getAvailableClient now p))). statusInv s"
  using assms by (simp add: getAvailableClient_keyStatus statusInv_resetStatus)

lemma statusInv_applyOp:
  assumes "\<forall>s \<in> set (keyStatus p). statusInv s"
  shows "\<forall>s \<in> set (keyStatus (applyOp p x)). statusInv s"
proof (cases x)
  case (GetAvailableClient now)
  show ?thesis
    unfolding GetAvailableClient applyOp.simps by (rule statusInv_getAvailableClient [OF assms])
next
  case (MarkKeyLimited index seconds now)
  have "keyStatus (applyOp p x) = snd (markKeyLimited index seconds now (keyStatus p))"
    unfolding MarkKeyLimited by simp
  then show ?thesis
    using statusInv_markKeyLimited [OF assms] by simp
next
  case GetKeysInfo
  then show ?thesis using assms by simp
qed

lemma statusInv_foldl:
  "\<forall>s \<in> set (keyStatus p). statusInv s \<Longrightarrow> \<forall>s \<in> set (keyStatus (foldl applyOp p ops)). statusInv s"
proof (induction ops arbitrary: p)
  case Nil
  then show ?case by simp
next
  case (Cons x ops)
  show ?case using Cons.IH [OF statusInv_applyOp [OF Cons.prems]] by simp
qed

text \<open>
  Claim C10.  From the pool at start-up, after any sequence of \<^verbatim>\<open>getAvailableClient\<close>,
  \<^verbatim>\<open>markKeyLimited\<close> (any index, in range or not, any cooldown) and \<^verbatim>\<open>getKeysInfo\<close>
  calls, every key has \<^verbatim>\<open>limited === false\<close> exactly when its \<^verbatim>\<open>resetTime\<close> is
  \<^verbatim>\<open>null\<close>.
\<close>

theorem limited_iff_resetTime:
  "\<forall>s \<in> set (keyStatus (runOps (initPool keys) ops)).
     (limited s = False \<longleftrightarrow> resetTime s = None)"
proof -
  have "\<forall>s \<in> set (keyStatus (initPool keys)). statusInv s"
    by (simp add: initPool_def freshStatus_def statusInv_def)
  from statusInv_foldl [OF this] show ?thesis
    by (simp add: runOps_def statusInv_def)
qed

theorem limited_iff_resetTime_witness:
  "keyStatus (runOps (initPool [''key-a'', ''key-b'']) exampleOps)
     = [\<lparr>limited = False, resetTime = None\<rparr>, \<lparr>limited = True, resetTime = Some 4060001\<rparr>]
   \<and> (limited (keyStatus (runOps (initPool [''key-a'', ''key-b'']) exampleOps) ! 0) = False
        \<longleftrightarrow> resetTime (keyStatus (runOps (initPool [''key-a'', ''key-b'']) exampleOps) ! 0) = None)
   \<and> (limited (keyStatus (runOps (initPool [''key-a'', ''key-b'']) exampleOps) ! 1) = False
        \<longleftrightarrow> resetTime (keyStatus (runOps (initPool [''key-a'', ''key-b'']) exampleOps) ! 1) = None)"
proof -
  have e: "keyStatus (runOps (initPool [''key-a'', ''key-b'']) exampleOps)
     = [\<lparr>limited = False, resetTime = None\<rparr>, \<lparr>limited = True, resetTime = Some 4060001\<rparr>]"
    by code_simp
  have "\<forall>s \<in> set (keyStatus (runOps (initPool [''key-a'', ''key-b'']) exampleOps)).
          (limited s = False \<longleftrightarrow> resetTime s = None)"
    by (rule limited_iff_resetTime)
  then show ?thesis
    unfolding e by simp
qed

section \<open>Properties of the dispatchers\<close>

lemma noKeysText_nonempty: "noKeysText e \<noteq> []"
  by (simp add: noKeysText_def)

lemma texts_nonempty:
  "noContentText \<noteq> []" "authErrorText \<noteq> []" "otherErrorText \<noteq> []" "allFailedText \<noteq> []"
  "highDemandText \<noteq> []" "configErrorText \<noteq> []" "noProvidersText \<noteq> []" "allProvidersFailedText \<noteq> []"
  by (simp_all add: noContentText_def authErrorText_def otherErrorText_def allFailedText_def
      highDemandText_def configErrorText_def noProvidersText_def allProvidersFailedText_def)

lemma reply_logCall [simp]: "reply (logCall c r) = reply r"
  by (simp add: logCall_def)

lemma calls_logCall [simp]: "calls (logCall c r) = c # calls r"
  by (simp add: logCall_def)

lemma finalPool_logCall [simp]: "finalPool (logCall c r) = finalPool r"
  by (simp add: logCall_def)

lemma finish_simps [simp]:
  "reply (finish t p) = Inr t" "calls (finish t p) = []" "finalPool (finish t p) = p"
  by (simp_all add: finish_def)

lemma raise_simps [simp]:
  "reply (raise x p) = Inl x" "calls (raise x p) = []" "finalPool (raise x p) = p"
  by (simp_all add: raise_def)

lemma attemptLoop_reply:
  assumes nn: "\<forall>k idx ms v. respond w k idx ms \<noteq> ThrownNullish v"
  shows "\<exists>t. reply (attemptLoop w e m a left p) = Inr t \<and> t \<noteq> []"
proof (induction left arbitrary: a p)
  case 0
  show ?case by (simp add: texts_nonempty)
next
  case (Suc left)
  show ?case
  proof (cases "getAvailableClient (selectTime w a) p")
    case (Pair r p')
    show ?thesis
    proof (cases r)
      case None
      with Pair show ?thesis by (simp add: noKeysText_nonempty)
    next
      case (Some idx)
      show ?thesis
      proof (cases "respond w a idx m")
        case (Returned c)
        with Pair Some show ?thesis
          by (cases c) (simp_all add: texts_nonempty)
      next
        case (Thrown err)
        show ?thesis
        proof (cases "isRateLimit err")
          case True
          obtain raised ks where mk:
            "markKeyLimited (int idx) (cooldownSeconds e) (markTime w a) (keyStatus p') = (raised, ks)"
            by (cases "markKeyLimited (int idx) (cooldownSeconds e) (markTime w a) (keyStatus p')")
          show ?thesis
            using Pair Some Thrown True mk Suc.IH [of "Suc a" "p'\<lparr>keyStatus := ks\<rparr>"]
            by simp
        next
          case False
          with Pair Some Thrown show ?thesis
            by (simp add: texts_nonempty)
        qed
      next
        case (ThrownNullish v)
        with nn show ?thesis by simp
      qed
    qed
  qed
qed


lemma attemptLoop_calls_messages:
  "c \<in> set (calls (attemptLoop w e m a left p)) \<Longrightarrow> snd c = m"
proof (induction left arbitrary: a p)
  case 0
  then show ?case by simp
next
  case (Suc left)
  show ?case
  proof (cases "getAvailableClient (selectTime w a) p")
    case (Pair r p')
    show ?thesis
    proof (cases r)
      case None
      with Pair Suc.prems show ?thesis by simp
    next
      case (Some idx)
      show ?thesis
      proof (cases "respond w a idx m")
        case (Returned c')
        with Pair Some Suc.prems show ?thesis
          by (cases c') auto
      next
        case (Thrown err)
        show ?thesis
        proof (cases "isRateLimit err")
          case True
          obtain raised ks where mk:
            "markKeyLimited (int idx) (cooldownSeconds e) (markTime w a) (keyStatus p') = (raised, ks)"
            by (cases "markKeyLimited (int idx) (cooldownSeconds e) (markTime w a) (keyStatus p')")
          show ?thesis
            using Pair Some Thrown True mk Suc.prems Suc.IH [of "Suc a" "p'\<lparr>keyStatus := ks\<rparr>"]
            by auto
        next
          case False
          with Pair Some Thrown Suc.prems show ?thesis by (auto split: if_splits)
        qed
      next
        case (ThrownNullish v)
        with Pair Some Suc.prems show ?thesis by auto
      qed
    qed
  qed
qed

lemma attemptLoop_rejection:
  "reply (attemptLoop w e m a left p) = Inl x \<Longrightarrow> \<exists>v. x = readOfNullish v"
proof (induction left arbitrary: a p)
  case 0
  then show ?case by simp
next
  case (Suc left)
  show ?case
  proof (cases "getAvailableClient (selectTime w a) p")
    case (Pair r p')
    show ?thesis
    proof (cases r)
      case None
      with Pair Suc.prems show ?thesis by simp
    next
      case (Some idx)
      show ?thesis
      proof (cases "respond w a idx m")
        case (Returned c')
        with Pair Some Suc.prems show ?thesis
          by (cases c') auto
      next
        case (Thrown err)
        show ?thesis
        proof (cases "isRateLimit err")
          case True
          obtain raised ks where mk:
            "markKeyLimited (int idx) (cooldownSeconds e) (markTime w a) (keyStatus p') = (raised, ks)"
            by (cases "markKeyLimited (int idx) (cooldownSeconds e) (markTime w a) (keyStatus p')")
          show ?thesis
            using Pair Some Thrown True mk Suc.prems Suc.IH [of "Suc a" "p'\<lparr>keyStatus := ks\<rparr>"]
            by auto
        next
          case False
          with Pair Some Thrown Suc.prems show ?thesis by (auto split: if_splits)
        qed
      next
        case (ThrownNullish v)
        with Pair Some Suc.prems show ?thesis by auto
      qed
    qed
  qed
qed

lemma maxAttempts_pos: "\<exists>k. nat (maxAttempts e) = Suc k"
proof -
  have "1 \<le> maxAttempts e" by (simp add: maxAttempts_def)
  then have "0 < nat (maxAttempts e)" by simp
  then show ?thesis by (simp add: gr0_conv_Suc)
qed

lemma chatWithAI_eq:
  "chatWithAI w e p userMessage (Messages history) =
     attemptLoop w e (\<lparr>role = ''system'', content = SKSU_CONTEXT\<rparr> # history
                       @ [\<lparr>role = ''user'', content = userMessage\<rparr>]) 0 (nat (maxAttempts e)) p"
proof -
  let ?r = "attemptLoop w e (\<lparr>role = ''system'', content = SKSU_CONTEXT\<rparr> # history
                       @ [\<lparr>role = ''user'', content = userMessage\<rparr>]) 0 (nat (maxAttempts e)) p"
  show ?thesis
  proof (cases "reply ?r")
    case (Inr t)
    then show ?thesis by (simp add: chatWithAI_def Let_def)
  next
    case (Inl x)
    from attemptLoop_rejection [OF this] have "status x = None"
      by (auto simp: readOfNullish_def)
    with Inl show ?thesis by (simp add: chatWithAI_def Let_def)
  qed
qed

lemma chatWithAI_not_iterable:
  "chatWithAI w e p userMessage NotIterable = raise notIterableError p"
  by (simp add: chatWithAI_def Let_def notIterableError_def)

lemma logInvoke_simps [simp]:
  "ptext (logInvoke n r) = ptext r" "providers (logInvoke n r) = providers r"
  "invoked (logInvoke n r) = n # invoked r"
  by (simp_all add: logInvoke_def)

lemma providerLoop_ptext:
  assumes nn: "\<forall>k n u hh v. invoke w k n u hh \<noteq> ThrownNullish v"
  shows "\<exists>t. ptext (providerLoop w um h k avail ps) = Inr t \<and> t \<noteq> []"
proof (induction avail arbitrary: k ps)
  case Nil
  show ?case by (simp add: texts_nonempty)
next
  case (Cons p rest)
  show ?case
  proof (cases "knownProvider (name p)")
    case False
    then show ?thesis using Cons.IH by simp
  next
    case True
    show ?thesis
    proof (cases "invoke w k (name p) um h")
      case (Returned response)
      with True show ?thesis using Cons.IH by (cases response) simp_all
    next
      case (Thrown err)
      with True show ?thesis using Cons.IH by simp
    next
      case (ThrownNullish v)
      with nn show ?thesis by simp
    qed
  qed
qed

lemma chatWithAI_providers_ptext:
  assumes nn: "\<forall>k n u hh v. invoke w k n u hh \<noteq> ThrownNullish v"
  shows "\<exists>t. ptext (chatWithAI_providers w now ps um h) = Inr t \<and> t \<noteq> []"
  using providerLoop_ptext [OF nn]
  by (simp add: chatWithAI_providers_def texts_nonempty split: prod.split)

lemma providerLoop_invoked_bound: "length (invoked (providerLoop w um h k avail ps)) \<le> length avail"
proof (induction avail arbitrary: k ps)
  case Nil
  show ?case by simp
next
  case (Cons p rest)
  show ?case
  proof (cases "knownProvider (name p)")
    case False
    then show ?thesis using Cons.IH [of "Suc k" ps] by simp
  next
    case True
    show ?thesis
    proof (cases "invoke w k (name p) um h")
      case (Returned response)
      with True show ?thesis using Cons.IH [of "Suc k" ps] by (cases response) simp_all
    next
      case (Thrown err)
      with True show ?thesis
        using Cons.IH [of "Suc k" ps]
          Cons.IH [of "Suc k" "markProviderLimited (name p) 3600 (failTime w k) ps"]
          Cons.IH [of "Suc k" "markProviderLimited (name p) 86400 (failTime w k) ps"]
        by simp
    next
      case (ThrownNullish v)
      with True show ?thesis by simp
    qed
  qed
qed


lemma distinct_initProviders: "distinct (map name (initProviders e))"
  by (simp add: initProviders_def newProvider_def Let_def)

lemma chatWithAI_providers_invoked_bound:
  "length (invoked (chatWithAI_providers w now ps um h)) \<le> length ps"
proof -
  have "length (sort_key priority (filter (\<lambda>p. \<not> limited p) (resetExpiredProviders now ps))) \<le> length ps"
    using length_filter_le [of "\<lambda>p. \<not> limited p" "resetExpiredProviders now ps"]
    by (simp add: resetExpiredProviders_def)
  then show ?thesis
    using providerLoop_invoked_bound
      [of w um h 0 "sort_key priority (filter (\<lambda>p. \<not> limited p) (resetExpiredProviders now ps))"
          "resetExpiredProviders now ps"]
    by (simp add: chatWithAI_providers_def getAvailableProviders_def Let_def)
qed

lemma find_markProviderLimited_same:
  "find (\<lambda>q. name q = n) (markProviderLimited n s t ps)
   = map_option (\<lambda>q. q\<lparr>limited := True, resetTime := Some (t + s * 1000)\<rparr>) (find (\<lambda>q. name q = n) ps)"
  by (induction ps) simp_all

lemma find_markProviderLimited_other:
  "n \<noteq> m \<Longrightarrow> find (\<lambda>q. name q = n) (markProviderLimited m s t ps) = find (\<lambda>q. name q = n) ps"
  by (induction ps) simp_all

lemma providerLoop_keeps_others:
  "n \<notin> name ` set avail \<Longrightarrow>
   find (\<lambda>q. name q = n) (providers (providerLoop w um h k avail ps)) = find (\<lambda>q. name q = n) ps"
proof (induction avail arbitrary: k ps)
  case Nil
  show ?case by simp
next
  case (Cons p rest)
  from Cons.prems have n: "n \<noteq> name p" "n \<notin> name ` set rest" by auto
  note IH = Cons.IH [OF n(2)]
  show ?case
  proof (cases "knownProvider (name p)")
    case False
    then show ?thesis using IH by simp
  next
    case True
    show ?thesis
    proof (cases "invoke w k (name p) um h")
      case (Returned response)
      with True show ?thesis using IH by (cases response) simp_all
    next
      case (Thrown err)
      with True show ?thesis
        using IH n(1) by (simp add: find_markProviderLimited_other)
    next
      case (ThrownNullish v)
      with True show ?thesis by simp
    qed
  qed
qed

lemma length_markProviderLimited [simp]:
  "length (markProviderLimited n s t ps) = length ps"
  by (induction ps) simp_all



lemma providerLoop_auth_step:
  assumes "knownProvider (name pr)" and "invoke pw k (name pr) um h = Thrown err"
    and "\<not> isRateLimitP err" and "isAuthP err"
  shows "providerLoop pw um h k (pr # rest) ps
         = logInvoke (name pr)
             (providerLoop pw um h (Suc k) rest (markProviderLimited (name pr) 86400 (failTime pw k) ps))"
  using assms by simp

lemma providerLoop_transient_step:
  assumes "knownProvider (name pr)" and "invoke pw k (name pr) um h = Thrown err"
    and "\<not> isRateLimitP err" and "\<not> isAuthP err"
  shows "providerLoop pw um h k (pr # rest) ps
         = logInvoke (name pr) (providerLoop pw um h (Suc k) rest ps)"
  using assms by simp

lemma attemptLoop_auth_step:
  assumes "getAvailableClient (selectTime w a) p = (Some idx, p')"
    and "respond w a idx m = Thrown err" and "\<not> isRateLimit err" and "isAuth err"
  shows "attemptLoop w e m a (Suc left) p = \<lparr>reply = Inr authErrorText, finalPool = p', calls = [(idx, m)]\<rparr>"
  using assms by (simp add: finish_def logCall_def)

lemma attemptLoop_transient_step:
  assumes "getAvailableClient (selectTime w a) p = (Some idx, p')"
    and "respond w a idx m = Thrown err" and "\<not> isRateLimit err" and "\<not> isAuth err"
  shows "attemptLoop w e m a (Suc left) p = \<lparr>reply = Inr otherErrorText, finalPool = p', calls = [(idx, m)]\<rparr>"
  using assms by (simp add: finish_def logCall_def)

lemma attemptLoop_no_client:
  assumes "getAvailableClient (selectTime w a) p = (None, p')"
  shows "attemptLoop w e m a (Suc left) p = \<lparr>reply = Inr (noKeysText e), finalPool = p', calls = []\<rparr>"
  using assms by (simp add: finish_def)

lemma texts_differ: "allFailedText \<noteq> noKeysText e"
  by (simp add: allFailedText_def noKeysText_def)

text \<open>
  Claim C1, as the code has it.  When the history argument is an array and no backend
  call throws \<^verbatim>\<open>null\<close> or \<^verbatim>\<open>undefined\<close>, then whatever the backends do (a completion
  with text, with empty or missing content, a rate-limit, authentication or other error,
  at any attempt), whatever the clock reads and whatever the pool holds, \<^verbatim>\<open>chatWithAI\<close>
  of groq-ai.js resolves to a text that is not empty.  When the history argument cannot
  be spread, as \<^verbatim>\<open>null\<close> cannot, the call is rejected with the TypeError of the spread,
  which the outer \<^verbatim>\<open>catch\<close> rethrows, and no backend is invoked.  \<^verbatim>\<open>chatWithAI\<close> of the
  multi-provider module, which hands the history to the adapters unread, returns a text
  that is not empty whenever no adapter throws \<^verbatim>\<open>null\<close> or \<^verbatim>\<open>undefined\<close>; its clock reads
  times that \<^verbatim>\<open>toISOString\<close> can format one day ahead.
\<close>

theorem chatWithAI_text_or_rejection:
  "((\<forall>k idx ms v. respond w k idx ms \<noteq> ThrownNullish v) \<longrightarrow>
      (\<exists>t. reply (chatWithAI w e p userMessage (Messages conversationHistory)) = Inr t \<and> t \<noteq> []))
   \<and> chatWithAI w e p userMessage NotIterable
       = \<lparr>reply = Inl notIterableError, finalPool = p, calls = []\<rparr>
   \<and> ((\<forall>k n u hh v. invoke pw k n u hh \<noteq> ThrownNullish v) \<longrightarrow>
      (\<exists>t. ptext (chatWithAI_providers pw now ps userMessage history) = Inr t \<and> t \<noteq> []))"
proof (intro conjI impI)
  assume "\<forall>k idx ms v. respond w k idx ms \<noteq> ThrownNullish v"
  from attemptLoop_reply [OF this]
  show "\<exists>t. reply (chatWithAI w e p userMessage (Messages conversationHistory)) = Inr t \<and> t \<noteq> []"
    by (simp add: chatWithAI_eq)
next
  show "chatWithAI w e p userMessage NotIterable
       = \<lparr>reply = Inl notIterableError, finalPool = p, calls = []\<rparr>"
    by (simp add: chatWithAI_not_iterable raise_def)
next
  assume "\<forall>k n u hh v. invoke pw k n u hh \<noteq> ThrownNullish v"
  then show "\<exists>t. ptext (chatWithAI_providers pw now ps userMessage history) = Inr t \<and> t \<noteq> []"
    by (rule chatWithAI_providers_ptext)
qed

text \<open>
  A backend call that throws \<^verbatim>\<open>null\<close> or \<^verbatim>\<open>undefined\<close> makes the \<^verbatim>\<open>catch\<close> block itself
  throw, and either dispatcher rejects.
\<close>

lemma nullish_throw_rejects:
  "reply (chatWithAI worldThrowsNull envEmpty twoKeys ''Hi'' (Messages [])) = Inl (readOfNullish Null)"
  "ptext (chatWithAI_providers pworldThrowsUndefined 1000 (initProviders envAllProviders) ''Hi'' (Messages []))
     = Inl (readOfNullish Undefined)"
  by code_simp+

text \<open>
  The route handler passes the request's \<^verbatim>\<open>conversationHistory\<close> on as it is, and the
  default \<^verbatim>\<open>[]\<close> replaces \<^verbatim>\<open>undefined\<close> only: with \<^verbatim>\<open>null\<close> the call is rejected.
\<close>

theorem null_history_counterexample:
  "reply (chatWithAI worldHello envEmpty twoKeys ''Hi'' NotIterable) = Inl notIterableError
   \<and> calls (chatWithAI worldHello envEmpty twoKeys ''Hi'' NotIterable) = []"
  by code_simp



text \<open>
  Claim C9.  Every backend invocation of a \<^verbatim>\<open>chatWithAI\<close> call is sent the same
  conversation: the fixed system preamble first, then the caller's history unchanged and
  in order (system-role entries of the history included), then the user message.  Such an
  invocation takes place whenever the first selection finds a key.  With a history that
  cannot be spread nothing is sent.
\<close>

theorem conversation_sent:
  "(\<forall>c \<in> set (calls (chatWithAI w e p userMessage (Messages conversationHistory))).
      snd c = \<lparr>role = ''system'', content = SKSU_CONTEXT\<rparr> # conversationHistory
                @ [\<lparr>role = ''user'', content = userMessage\<rparr>])
   \<and> (fst (getAvailableClient (selectTime w 0) p) \<noteq> None \<longrightarrow>
        calls (chatWithAI w e p userMessage (Messages conversationHistory)) \<noteq> [])
   \<and> calls (chatWithAI w e p userMessage NotIterable) = []"
proof (intro conjI ballI impI)
  show "calls (chatWithAI w e p userMessage NotIterable) = []"
    by (simp add: chatWithAI_not_iterable)
next
  fix c assume "c \<in> set (calls (chatWithAI w e p userMessage (Messages conversationHistory)))"
  then show "snd c = \<lparr>role = ''system'', content = SKSU_CONTEXT\<rparr> # conversationHistory
                @ [\<lparr>role = ''user'', content = userMessage\<rparr>]"
    by (simp add: chatWithAI_eq attemptLoop_calls_messages)
next
  assume a: "fst (getAvailableClient (selectTime w 0) p) \<noteq> None"
  obtain k where k: "nat (maxAttempts e) = Suc k" using maxAttempts_pos by blast
  obtain r p' where g: "getAvailableClient (selectTime w 0) p = (r, p')"
    by (cases "getAvailableClient (selectTime w 0) p")
  with a obtain idx where "r = Some idx" by auto
  with g show "calls (chatWithAI w e p userMessage (Messages conversationHistory)) \<noteq> []"
    by (simp add: chatWithAI_eq k)
qed

text \<open>
  Claim C7, as the code has it.  \<^verbatim>\<open>chatWithAI\<close> of groq-ai.js has two fallback texts for
  the three causes: the text of the exhausted attempt budget differs from the text
  returned when \<^verbatim>\<open>getAvailableClient\<close> finds nothing, and that second text is the same
  template (it depends on the environment flags only) whether no key was ever configured
  or every key is quarantined at the time of the call.  In both of these cases the call,
  made with an array as history, returns at once, without any backend invocation.
\<close>

theorem fallback_texts:
  "allFailedText \<noteq> noKeysText e
   \<and> (keyStatus p = [] \<longrightarrow>
        chatWithAI w e p userMessage (Messages conversationHistory)
          = \<lparr>reply = Inr (noKeysText e), finalPool = p, calls = []\<rparr>)
   \<and> (keyStatus p \<noteq> []
        \<and> (\<forall>s \<in> set (keyStatus p). limited s \<and> (\<exists>r. resetTime s = Some r \<and> selectTime w 0 \<le> r)) \<longrightarrow>
        reply (chatWithAI w e p userMessage (Messages conversationHistory)) = Inr (noKeysText e)
        \<and> calls (chatWithAI w e p userMessage (Messages conversationHistory)) = [])"
proof (intro conjI impI)
  show "allFailedText \<noteq> noKeysText e" by (rule texts_differ)
next
  obtain k where k: "nat (maxAttempts e) = Suc k" using maxAttempts_pos by blast
  assume "keyStatus p = []"
  then have "getAvailableClient (selectTime w 0) p = (None, p)"
    by (simp add: getAvailableClient_def)
  then show "chatWithAI w e p userMessage (Messages conversationHistory)
          = \<lparr>reply = Inr (noKeysText e), finalPool = p, calls = []\<rparr>"
    by (simp add: chatWithAI_eq k attemptLoop_no_client)
next
  obtain k where k: "nat (maxAttempts e) = Suc k" using maxAttempts_pos by blast
  assume a: "keyStatus p \<noteq> []
        \<and> (\<forall>s \<in> set (keyStatus p). limited s \<and> (\<exists>r. resetTime s = Some r \<and> selectTime w 0 \<le> r))"
  have "\<forall>j < length (keyStatus p). limited (resetStatus (selectTime w 0) (keyStatus p ! j))"
  proof (intro allI impI)
    fix j assume "j < length (keyStatus p)"
    then have "keyStatus p ! j \<in> set (keyStatus p)" by simp
    with a obtain r where "limited (keyStatus p ! j)" "resetTime (keyStatus p ! j) = Some r" "selectTime w 0 \<le> r"
      by blast
    then show "limited (resetStatus (selectTime w 0) (keyStatus p ! j))"
      by (simp add: resetStatus_def)
  qed
  with a have g: "getAvailableClient (selectTime w 0) p =
         (None, \<lparr>keyStatus = map (resetStatus (selectTime w 0)) (keyStatus p), currentIndex = currentIndex p\<rparr>)"
    by (simp add: getAvailableClient_all_limited)
  show "reply (chatWithAI w e p userMessage (Messages conversationHistory)) = Inr (noKeysText e)"
    by (simp add: chatWithAI_eq k g)
  show "calls (chatWithAI w e p userMessage (Messages conversationHistory)) = []"
    by (simp add: chatWithAI_eq k g)
qed

text \<open>
  Claim C2, as the code has it.  An error reaches the authentication branch when the
  rate-limit test before it fails and the authentication test holds.  In the
  multi-provider module such a failure of the provider tried at position \<open>k\<close> marks that
  provider limited until 86400 seconds after the failure and the loop goes on with the
  rest of the available providers; at the end of the call the provider still carries
  that expiry (the names of the available providers are distinct, each being registered
  at most once).  In groq-ai.js such a failure ends the call at once with the
  authentication error text, after this single invocation, and the key stays not
  limited.
\<close>

theorem auth_failure_handling:
  "(knownProvider (name pr) \<and> invoke pw k (name pr) um h = Thrown err
      \<and> \<not> isRateLimitP err \<and> isAuthP err
      \<and> find (\<lambda>q. name q = name pr) ps \<noteq> None \<and> name pr \<notin> name ` set rest \<longrightarrow>
      providerLoop pw um h k (pr # rest) ps
        = logInvoke (name pr)
            (providerLoop pw um h (Suc k) rest (markProviderLimited (name pr) 86400 (failTime pw k) ps))
      \<and> (\<exists>q. find (\<lambda>q. name q = name pr) (providers (providerLoop pw um h k (pr # rest) ps)) = Some q
              \<and> limited q \<and> resetTime q = Some (failTime pw k + 86400 * 1000)))
   \<and> (getAvailableClient (selectTime w a) p = (Some idx, p') \<and> respond w a idx m = Thrown err'
      \<and> \<not> isRateLimit err' \<and> isAuth err' \<longrightarrow>
      attemptLoop w e m a (Suc left) p = \<lparr>reply = Inr authErrorText, finalPool = p', calls = [(idx, m)]\<rparr>
      \<and> \<not> limited (keyStatus p' ! idx))"
proof (intro conjI impI)
  assume a: "knownProvider (name pr) \<and> invoke pw k (name pr) um h = Thrown err
      \<and> \<not> isRateLimitP err \<and> isAuthP err
      \<and> find (\<lambda>q. name q = name pr) ps \<noteq> None \<and> name pr \<notin> name ` set rest"
  let ?ps = "markProviderLimited (name pr) 86400 (failTime pw k) ps"
  show step: "providerLoop pw um h k (pr # rest) ps
        = logInvoke (name pr) (providerLoop pw um h (Suc k) rest ?ps)"
    using a by (simp add: providerLoop_auth_step)
  from a obtain q0 where q0: "find (\<lambda>q. name q = name pr) ps = Some q0" by auto
  have "find (\<lambda>q. name q = name pr) (providers (providerLoop pw um h (Suc k) rest ?ps))
        = find (\<lambda>q. name q = name pr) ?ps"
    using a by (simp add: providerLoop_keeps_others)
  also have "\<dots> = Some (q0\<lparr>limited := True, resetTime := Some (failTime pw k + 86400 * 1000)\<rparr>)"
    by (simp add: find_markProviderLimited_same q0)
  finally show "\<exists>q. find (\<lambda>q. name q = name pr) (providers (providerLoop pw um h k (pr # rest) ps)) = Some q
              \<and> limited q \<and> resetTime q = Some (failTime pw k + 86400 * 1000)"
    unfolding step by simp
next
  assume a: "getAvailableClient (selectTime w a) p = (Some idx, p') \<and> respond w a idx m = Thrown err'
      \<and> \<not> isRateLimit err' \<and> isAuth err'"
  then show "attemptLoop w e m a (Suc left) p = \<lparr>reply = Inr authErrorText, finalPool = p', calls = [(idx, m)]\<rparr>"
    by (simp add: attemptLoop_auth_step)
  from a have g: "getAvailableClient (selectTime w a) p = (Some idx, p')" by simp
  from getAvailableClient_Some [OF g] show "\<not> limited (keyStatus p' ! idx)" by simp
qed

text \<open>
  Claim C3, as the code has it.  An error is transient when neither the rate-limit test
  nor the authentication test holds.  In the multi-provider module such a failure leaves
  the provider list as it is and the loop goes on with the rest of the available
  providers; at the end of the call the failing provider has the health state it had.
  In groq-ai.js such a failure ends the call at once with the generic error text, after
  this single invocation; the key stays not limited.
\<close>

theorem transient_failure_handling:
  "(knownProvider (name pr) \<and> invoke pw k (name pr) um h = Thrown err
      \<and> \<not> isRateLimitP err \<and> \<not> isAuthP err \<and> name pr \<notin> name ` set rest \<longrightarrow>
      providerLoop pw um h k (pr # rest) ps
        = logInvoke (name pr) (providerLoop pw um h (Suc k) rest ps)
      \<and> find (\<lambda>q. name q = name pr) (providers (providerLoop pw um h k (pr # rest) ps))
          = find (\<lambda>q. name q = name pr) ps)
   \<and> (getAvailableClient (selectTime w a) p = (Some idx, p') \<and> respond w a idx m = Thrown err'
      \<and> \<not> isRateLimit err' \<and> \<not> isAuth err' \<longrightarrow>
      attemptLoop w e m a (Suc left) p = \<lparr>reply = Inr otherErrorText, finalPool = p', calls = [(idx, m)]\<rparr>
      \<and> \<not> limited (keyStatus p' ! idx))"
proof (intro conjI impI)
  assume a: "knownProvider (name pr) \<and> invoke pw k (name pr) um h = Thrown err
      \<and> \<not> isRateLimitP err \<and> \<not> isAuthP err \<and> name pr \<notin> name ` set rest"
  show step: "providerLoop pw um h k (pr # rest) ps
        = logInvoke (name pr) (providerLoop pw um h (Suc k) rest ps)"
    using a by (simp add: providerLoop_transient_step)
  show "find (\<lambda>q. name q = name pr) (providers (providerLoop pw um h k (pr # rest) ps))
          = find (\<lambda>q. name q = name pr) ps"
    unfolding step using a by (simp add: providerLoop_keeps_others)
next
  assume a: "getAvailableClient (selectTime w a) p = (Some idx, p') \<and> respond w a idx m = Thrown err'
      \<and> \<not> isRateLimit err' \<and> \<not> isAuth err'"
  then show "attemptLoop w e m a (Suc left) p = \<lparr>reply = Inr otherErrorText, finalPool = p', calls = [(idx, m)]\<rparr>"
    by (simp add: attemptLoop_transient_step)
  from a have g: "getAvailableClient (selectTime w a) p = (Some idx, p')" by simp
  from getAvailableClient_Some [OF g] show "\<not> limited (keyStatus p' ! idx)" by simp
qed

theorem chatWithAI_text_or_rejection_witness:
  "reply (chatWithAI worldHello envEmpty twoKeys ''Hi'' (Messages [])) = Inr ''Hello!''
   \<and> reply (chatWithAI worldNoContent envEmpty twoKeys ''Hi'' (Messages [])) = Inr noContentText
   \<and> reply (chatWithAI worldRateLimited envEmpty twoKeys ''Hi'' (Messages [])) = Inr (noKeysText envEmpty)
   \<and> reply (chatWithAI worldRateLimited envEmpty fourKeys ''Hi'' (Messages [])) = Inr allFailedText
   \<and> reply (chatWithAI worldAuthFail envEmpty twoKeys ''Hi'' (Messages [])) = Inr authErrorText
   \<and> reply (chatWithAI worldTransient envEmpty twoKeys ''Hi'' (Messages [])) = Inr otherErrorText
   \<and> reply (chatWithAI worldHello envEmpty (initPool []) ''Hi'' (Messages [])) = Inr (noKeysText envEmpty)
   \<and> ptext (chatWithAI_providers pworldAllTransient 1000 (initProviders envAllProviders) ''Hi'' (Messages []))
       = Inr allProvidersFailedText
   \<and> ptext (chatWithAI_providers pworldAllTransient 1000 (initProviders envEmpty) ''Hi'' (Messages []))
       = Inr noProvidersText"
proof -
  have "reply (chatWithAI worldHello envEmpty twoKeys ''Hi'' (Messages [])) = Inr ''Hello!''"
    by code_simp
  moreover have "reply (chatWithAI worldNoContent envEmpty twoKeys ''Hi'' (Messages [])) = Inr noContentText"
    by code_simp
  moreover have "reply (chatWithAI worldRateLimited envEmpty twoKeys ''Hi'' (Messages [])) = Inr (noKeysText envEmpty)"
    by code_simp
  moreover have "reply (chatWithAI worldRateLimited envEmpty fourKeys ''Hi'' (Messages [])) = Inr allFailedText"
    by code_simp
  moreover have "reply (chatWithAI worldAuthFail envEmpty twoKeys ''Hi'' (Messages [])) = Inr authErrorText"
    by code_simp
  moreover have "reply (chatWithAI worldTransient envEmpty twoKeys ''Hi'' (Messages [])) = Inr otherErrorText"
    by code_simp
  moreover have "reply (chatWithAI worldHello envEmpty (initPool []) ''Hi'' (Messages [])) = Inr (noKeysText envEmpty)"
    by code_simp
  moreover have "ptext (chatWithAI_providers pworldAllTransient 1000 (initProviders envAllProviders) ''Hi'' (Messages []))
       = Inr allProvidersFailedText"
    by code_simp
  moreover have "ptext (chatWithAI_providers pworldAllTransient 1000 (initProviders envEmpty) ''Hi'' (Messages []))
       = Inr noProvidersText"
    by code_simp
  moreover have h: "\<forall>k idx ms v. respond worldHello k idx ms \<noteq> ThrownNullish v"
    by (simp add: worldHello_def)
  moreover have hp: "\<forall>k n u hh v. invoke pworldAllTransient k n u hh \<noteq> ThrownNullish v"
    by (simp add: pworldAllTransient_def)
  moreover note chatWithAI_text_or_rejection [where w = worldHello and e = envEmpty and p = twoKeys
        and userMessage = "''Hi''" and conversationHistory = "[]"
        and pw = pworldAllTransient and now = 1000 and ps = "initProviders envAllProviders"
        and history = "Messages []"]
  ultimately show ?thesis
    by simp
qed


theorem conversation_sent_witness:
  "calls (chatWithAI worldHello envEmpty twoKeys ''Hi'' (Messages historyWithSystem)) \<noteq> []
   \<and> snd (hd (calls (chatWithAI worldHello envEmpty twoKeys ''Hi'' (Messages historyWithSystem))))
       = \<lparr>role = ''system'', content = SKSU_CONTEXT\<rparr> # historyWithSystem
           @ [\<lparr>role = ''user'', content = ''Hi''\<rparr>]"
proof -
  have h: "fst (getAvailableClient (selectTime worldHello 0) twoKeys) \<noteq> None"
    by code_simp
  note t = conversation_sent [of worldHello envEmpty twoKeys "''Hi''" historyWithSystem]
  from t h have ne: "calls (chatWithAI worldHello envEmpty twoKeys ''Hi'' (Messages historyWithSystem)) \<noteq> []"
    by blast
  then have "hd (calls (chatWithAI worldHello envEmpty twoKeys ''Hi'' (Messages historyWithSystem)))
             \<in> set (calls (chatWithAI worldHello envEmpty twoKeys ''Hi'' (Messages historyWithSystem)))"
    by simp
  with t ne show ?thesis by blast
qed

theorem fallback_texts_witness:
  "allFailedText \<noteq> noKeysText envEmpty
   \<and> chatWithAI worldHello envEmpty (initPool (uniqueKeys envEmpty)) ''Hi'' (Messages [])
       = \<lparr>reply = Inr (noKeysText envEmpty), finalPool = initPool (uniqueKeys envEmpty), calls = []\<rparr>
   \<and> reply (chatWithAI worldHello envOnlyKey1 quarantinedPool ''Hi'' (Messages [])) = Inr (noKeysText envOnlyKey1)
   \<and> calls (chatWithAI worldHello envOnlyKey1 quarantinedPool ''Hi'' (Messages [])) = []"
proof -
  have h1: "keyStatus (initPool (uniqueKeys envEmpty)) = []"
    by code_simp
  have ks: "keyStatus quarantinedPool = [\<lparr>limited = True, resetTime = Some 3601000\<rparr>]"
    by code_simp
  have st: "selectTime worldHello 0 = 2000"
    by (simp add: worldHello_def)
  have h2: "keyStatus quarantinedPool \<noteq> []
        \<and> (\<forall>s \<in> set (keyStatus quarantinedPool).
              limited s \<and> (\<exists>r. resetTime s = Some r \<and> selectTime worldHello 0 \<le> r))"
    by (simp add: ks st)
  from fallback_texts [of envEmpty "initPool (uniqueKeys envEmpty)" worldHello "''Hi''" "[]"] h1
  have a: "allFailedText \<noteq> noKeysText envEmpty
     \<and> chatWithAI worldHello envEmpty (initPool (uniqueKeys envEmpty)) ''Hi'' (Messages [])
       = \<lparr>reply = Inr (noKeysText envEmpty), finalPool = initPool (uniqueKeys envEmpty), calls = []\<rparr>"
    by blast
  from fallback_texts [of envOnlyKey1 quarantinedPool worldHello "''Hi''" "[]"] h2
  have b: "reply (chatWithAI worldHello envOnlyKey1 quarantinedPool ''Hi'' (Messages [])) = Inr (noKeysText envOnlyKey1)
     \<and> calls (chatWithAI worldHello envOnlyKey1 quarantinedPool ''Hi'' (Messages [])) = []"
    by blast
  from a b show ?thesis by simp
qed

text \<open>
  No key configured at all, against one key (from \<^verbatim>\<open>GROQ_API_KEY_1\<close>) that is quarantined
  at the time of the call: the two calls return the same text.
\<close>

theorem fallback_texts_counterexample:
  "uniqueKeys envEmpty = []
   \<and> uniqueKeys envOnlyKey1 = [''key-a'']
   \<and> keyStatus quarantinedPool = [\<lparr>limited = True, resetTime = Some 3601000\<rparr>]
   \<and> selectTime worldHello 0 = 2000
   \<and> reply (chatWithAI worldHello envEmpty (initPool (uniqueKeys envEmpty)) ''Hi'' (Messages []))
       = reply (chatWithAI worldHello envOnlyKey1 quarantinedPool ''Hi'' (Messages []))"
  by code_simp

text \<open>
  Two fresh keys and a backend that answers 401: groq-ai.js returns the authentication
  error text after one invocation, key 1 is never tried and key 0 is not quarantined.
\<close>

theorem auth_failure_counterexample:
  "reply (chatWithAI worldAuthFail envEmpty twoKeys ''Hi'' (Messages [])) = Inr authErrorText
   \<and> map fst (calls (chatWithAI worldAuthFail envEmpty twoKeys ''Hi'' (Messages []))) = [0]
   \<and> keyStatus (finalPool (chatWithAI worldAuthFail envEmpty twoKeys ''Hi'' (Messages [])))
       = [\<lparr>limited = False, resetTime = None\<rparr>, \<lparr>limited = False, resetTime = None\<rparr>]"
  by code_simp

text \<open>
  Two fresh keys, two attempts allowed and a backend that fails with a transient error:
  groq-ai.js returns the generic error text after one invocation, not the text of the
  exhausted budget after two.
\<close>

theorem transient_failure_counterexample:
  "maxAttempts envTwoAttempts = 2
   \<and> uniqueKeys envTwoAttempts = [''key-a'', ''key-b'']
   \<and> reply (chatWithAI worldTransient envTwoAttempts (initPool (uniqueKeys envTwoAttempts)) ''Hi'' (Messages []))
       = Inr otherErrorText
   \<and> otherErrorText \<noteq> allFailedText
   \<and> map fst (calls (chatWithAI worldTransient envTwoAttempts (initPool (uniqueKeys envTwoAttempts)) ''Hi'' (Messages [])))
       = [0]"
  by code_simp

theorem auth_failure_handling_witness:
  "chatWithAI_providers pworldGeminiAuthFail 1000 (initProviders envAllProviders) ''Hi'' (Messages [])
     = \<lparr>ptext = Inr ''ok'',
        providers = [\<lparr>limited = True, resetTime = Some 86405000, name = ''gemini'', priority = 1\<rparr>,
                     newProvider ''cohere'' 2, newProvider ''groq'' 3],
        invoked = [''gemini'', ''cohere'']\<rparr>
   \<and> providerLoop pworldGeminiAuthFail ''Hi'' (Messages []) 0
        (newProvider ''gemini'' 1 # [newProvider ''cohere'' 2, newProvider ''groq'' 3])
        (initProviders envAllProviders)
       = logInvoke ''gemini''
           (providerLoop pworldGeminiAuthFail ''Hi'' (Messages []) (Suc 0) [newProvider ''cohere'' 2, newProvider ''groq'' 3]
              (markProviderLimited ''gemini'' 86400 5000 (initProviders envAllProviders)))
   \<and> attemptLoop worldAuthFail envEmpty [] 0 (Suc 2) twoKeys
       = \<lparr>reply = Inr authErrorText, finalPool = twoKeys, calls = [(0, [])]\<rparr>
   \<and> \<not> limited (keyStatus twoKeys ! 0)"
proof -
  have e: "chatWithAI_providers pworldGeminiAuthFail 1000 (initProviders envAllProviders) ''Hi'' (Messages [])
     = \<lparr>ptext = Inr ''ok'',
        providers = [\<lparr>limited = True, resetTime = Some 86405000, name = ''gemini'', priority = 1\<rparr>,
                     newProvider ''cohere'' 2, newProvider ''groq'' 3],
        invoked = [''gemini'', ''cohere'']\<rparr>"
    by code_simp
  have h1: "knownProvider (name (newProvider ''gemini'' 1))
      \<and> invoke pworldGeminiAuthFail 0 (name (newProvider ''gemini'' 1)) ''Hi'' (Messages []) = Thrown authError
      \<and> \<not> isRateLimitP authError \<and> isAuthP authError
      \<and> find (\<lambda>q. name q = name (newProvider ''gemini'' 1)) (initProviders envAllProviders) \<noteq> None
      \<and> name (newProvider ''gemini'' 1) \<notin> name ` set [newProvider ''cohere'' 2, newProvider ''groq'' 3]"
    by code_simp
  have h2: "getAvailableClient (selectTime worldAuthFail 0) twoKeys = (Some 0, twoKeys)
      \<and> respond worldAuthFail 0 0 [] = Thrown \<lparr>status = Some 401, statusCode = None, message = Some ''Invalid API Key''\<rparr>
      \<and> \<not> isRateLimit \<lparr>status = Some 401, statusCode = None, message = Some ''Invalid API Key''\<rparr>
      \<and> isAuth \<lparr>status = Some 401, statusCode = None, message = Some ''Invalid API Key''\<rparr>"
    by code_simp
  have f: "failTime pworldGeminiAuthFail 0 = 5000" "name (newProvider ''gemini'' 1) = ''gemini''"
    by (simp_all add: pworldGeminiAuthFail_def newProvider_def)
  note t = auth_failure_handling [where pr = "newProvider ''gemini'' 1" and pw = pworldGeminiAuthFail
      and k = 0 and um = "''Hi''" and h = "Messages []" and err = authError
      and ps = "initProviders envAllProviders"
      and rest = "[newProvider ''cohere'' 2, newProvider ''groq'' 3]"
      and w = worldAuthFail and a = 0 and p = twoKeys and idx = 0 and p' = twoKeys and m = "[]"
      and err' = "\<lparr>status = Some 401, statusCode = None, message = Some ''Invalid API Key''\<rparr>"
      and e = envEmpty and left = 2]
  from t h1 have a: "providerLoop pworldGeminiAuthFail ''Hi'' (Messages []) 0
        (newProvider ''gemini'' 1 # [newProvider ''cohere'' 2, newProvider ''groq'' 3])
        (initProviders envAllProviders)
       = logInvoke (name (newProvider ''gemini'' 1))
           (providerLoop pworldGeminiAuthFail ''Hi'' (Messages []) (Suc 0) [newProvider ''cohere'' 2, newProvider ''groq'' 3]
              (markProviderLimited (name (newProvider ''gemini'' 1)) 86400 (failTime pworldGeminiAuthFail 0)
                 (initProviders envAllProviders)))"
    by blast
  from t h2 have b: "attemptLoop worldAuthFail envEmpty [] 0 (Suc 2) twoKeys
       = \<lparr>reply = Inr authErrorText, finalPool = twoKeys, calls = [(0, [])]\<rparr>
   \<and> \<not> limited (keyStatus twoKeys ! 0)"
    by blast
  from e a b show ?thesis unfolding f by simp
qed

theorem transient_failure_handling_witness:
  "chatWithAI_providers pworldGeminiTransient 1000 (initProviders envAllProviders) ''Hi'' (Messages [])
     = \<lparr>ptext = Inr ''ok'', providers = initProviders envAllProviders, invoked = [''gemini'', ''cohere'']\<rparr>
   \<and> find (\<lambda>q. name q = ''gemini'')
        (providers (providerLoop pworldGeminiTransient ''Hi'' (Messages []) 0
           (newProvider ''gemini'' 1 # [newProvider ''cohere'' 2, newProvider ''groq'' 3])
           (initProviders envAllProviders)))
       = find (\<lambda>q. name q = ''gemini'') (initProviders envAllProviders)
   \<and> attemptLoop worldTransient envEmpty [] 0 (Suc 2) twoKeys
       = \<lparr>reply = Inr otherErrorText, finalPool = twoKeys, calls = [(0, [])]\<rparr>
   \<and> \<not> limited (keyStatus twoKeys ! 0)"
proof -
  have e: "chatWithAI_providers pworldGeminiTransient 1000 (initProviders envAllProviders) ''Hi'' (Messages [])
     = \<lparr>ptext = Inr ''ok'', providers = initProviders envAllProviders, invoked = [''gemini'', ''cohere'']\<rparr>"
    by code_simp
  have h1: "knownProvider (name (newProvider ''gemini'' 1))
      \<and> invoke pworldGeminiTransient 0 (name (newProvider ''gemini'' 1)) ''Hi'' (Messages []) = Thrown transientError
      \<and> \<not> isRateLimitP transientError \<and> \<not> isAuthP transientError
      \<and> name (newProvider ''gemini'' 1) \<notin> name ` set [newProvider ''cohere'' 2, newProvider ''groq'' 3]"
    by code_simp
  have h2: "getAvailableClient (selectTime worldTransient 0) twoKeys = (Some 0, twoKeys)
      \<and> respond worldTransient 0 0 [] = Thrown \<lparr>status = Some 500, statusCode = None, message = Some ''socket hang up''\<rparr>
      \<and> \<not> isRateLimit \<lparr>status = Some 500, statusCode = None, message = Some ''socket hang up''\<rparr>
      \<and> \<not> isAuth \<lparr>status = Some 500, statusCode = None, message = Some ''socket hang up''\<rparr>"
    by code_simp
  have f: "name (newProvider ''gemini'' 1) = ''gemini''"
    by (simp add: newProvider_def)
  note t = transient_failure_handling [where pr = "newProvider ''gemini'' 1" and pw = pworldGeminiTransient
      and k = 0 and um = "''Hi''" and h = "Messages []" and err = transientError
      and ps = "initProviders envAllProviders"
      and rest = "[newProvider ''cohere'' 2, newProvider ''groq'' 3]"
      and w = worldTransient and a = 0 and p = twoKeys and idx = 0 and p' = twoKeys and m = "[]"
      and err' = "\<lparr>status = Some 500, statusCode = None, message = Some ''socket hang up''\<rparr>"
      and e = envEmpty and left = 2]
  from t h1 have a: "find (\<lambda>q. name q = name (newProvider ''gemini'' 1))
        (providers (providerLoop pworldGeminiTransient ''Hi'' (Messages []) 0
           (newProvider ''gemini'' 1 # [newProvider ''cohere'' 2, newProvider ''groq'' 3])
           (initProviders envAllProviders)))
       = find (\<lambda>q. name q = name (newProvider ''gemini'' 1)) (initProviders envAllProviders)"
    by blast
  from t h2 have b: "attemptLoop worldTransient envEmpty [] 0 (Suc 2) twoKeys
       = \<lparr>reply = Inr otherErrorText, finalPool = twoKeys, calls = [(0, [])]\<rparr>
   \<and> \<not> limited (keyStatus twoKeys ! 0)"
    by blast
  from e a b show ?thesis unfolding f by simp
qed

end
